theory Spec2Isabelle
  imports Complex_Main "HOL-Library.Log_Nat"
begin

section \<open>Python numbers\<close>

text \<open>
  The scripts compute pixel positions with Python's \<^verbatim>\<open>/\<close> and \<^verbatim>\<open>*\<close> on
  \<^verbatim>\<open>int\<close> and \<^verbatim>\<open>float\<close>. A Python \<^verbatim>\<open>int\<close> is an unbounded integer
  (\<^typ>\<open>int\<close>). A finite Python \<^verbatim>\<open>float\<close> is a binary64 number and is modelled by the
  rational it denotes; every arithmetic operation returns the exact result rounded to the
  nearest binary64 number, ties to the even significand. The rounding is written out below,
  because the truncation \<^verbatim>\<open>int(...)\<close> of a rounded product can differ from the floor of the
  exact product.
\<close>

text \<open>
  The exceptions of the model. \<open>ValueError\<close> is raised by \<^verbatim>\<open>int(s)\<close> on a numeral
  that is too long. \<open>EnvError\<close> stands for whatever a collaborator raises (the subprocess
  layer when the executable is missing, the image decoder on a bad file); the code only ever
  catches it with \<^verbatim>\<open>except Exception\<close>.
\<close>

datatype pyerr = ZeroDivisionError | OverflowError | ValueError | EnvError string

text \<open>\<open>ilog2 x\<close> is the binary exponent of a positive rational: \<open>2^e \<le> x < 2^(e+1)\<close>.\<close>

definition ilog2 :: "rat \<Rightarrow> int" where
  "ilog2 x = (case quotient_of x of (p, q) \<Rightarrow>
     let k = bitlen p - bitlen q in if 2 powi k \<le> x then k else k - 1)"

text \<open>Rounding to the nearest integer, a tie going to the even neighbour.\<close>

definition rne :: "rat \<Rightarrow> int" where
  "rne x = (let n = \<lfloor>x\<rfloor>; d = x - of_int n in
     if d < 1 / 2 then n else if 1 / 2 < d then n + 1 else if even n then n else n + 1)"

text \<open>
  \<open>fl x\<close> rounds \<open>x\<close> to 53 significant bits; below \<open>2^-1022\<close> the spacing stays
  \<open>2^-1074\<close> (subnormal numbers). The exponent is not bounded above here: \<open>round64\<close> does that.
\<close>

definition fl :: "rat \<Rightarrow> rat" where
  "fl x = (if x = 0 then 0 else
     let e = max (ilog2 \<bar>x\<bar>) (- 1022) - 52 in of_int (rne (x / 2 powi e)) * 2 powi e)"

text \<open>The unit roundoff of binary64.\<close>

definition uround :: rat where
  "uround = 1 / 2 ^ 53"

text \<open>The result of a float operation: a finite number, or an infinity on overflow.\<close>

datatype xfloat = Finite rat | PosInf | NegInf

definition round64 :: "rat \<Rightarrow> xfloat" where
  "round64 x = (let y = fl x in
     if 2 ^ 1024 \<le> y then PosInf else if y \<le> - (2 ^ 1024) then NegInf else Finite y)"

text \<open>
  Converting an \<^verbatim>\<open>int\<close> operand to \<^verbatim>\<open>float\<close> (as \<^verbatim>\<open>float * int\<close> and
  \<^verbatim>\<open>int - float\<close> do) raises \<^verbatim>\<open>OverflowError\<close> when the rounded value leaves the
  binary64 range.
\<close>

definition float_of_int :: "int \<Rightarrow> pyerr + rat" where
  "float_of_int n = (case round64 (of_int n) of Finite y \<Rightarrow> Inr y | _ \<Rightarrow> Inl OverflowError)"

text \<open>\<^verbatim>\<open>a / b\<close> on two \<^verbatim>\<open>int\<close>s: the correctly rounded quotient.\<close>

definition int_truediv :: "int \<Rightarrow> int \<Rightarrow> pyerr + rat" where
  "int_truediv a b =
     (if b = 0 then Inl ZeroDivisionError
      else case round64 (of_int a / of_int b) of Finite y \<Rightarrow> Inr y | _ \<Rightarrow> Inl OverflowError)"

definition float_mul :: "rat \<Rightarrow> rat \<Rightarrow> xfloat" where
  "float_mul x y = round64 (x * y)"

text \<open>\<open>float_sub x f\<close> is \<^verbatim>\<open>x - f\<close> for a finite \<open>x\<close>.\<close>

definition float_sub :: "rat \<Rightarrow> xfloat \<Rightarrow> xfloat" where
  "float_sub x f = (case f of Finite y \<Rightarrow> round64 (x - y) | PosInf \<Rightarrow> NegInf | NegInf \<Rightarrow> PosInf)"

text \<open>Python compares an \<^verbatim>\<open>int\<close> with a \<^verbatim>\<open>float\<close> exactly, without converting.\<close>

definition int_lt_float :: "int \<Rightarrow> xfloat \<Rightarrow> bool" where
  "int_lt_float n f = (case f of Finite y \<Rightarrow> of_int n < y | PosInf \<Rightarrow> True | NegInf \<Rightarrow> False)"

definition int_gt_float :: "int \<Rightarrow> xfloat \<Rightarrow> bool" where
  "int_gt_float n f = (case f of Finite y \<Rightarrow> y < of_int n | PosInf \<Rightarrow> False | NegInf \<Rightarrow> True)"

text \<open>\<^verbatim>\<open>int(f)\<close> truncates towards zero and raises \<^verbatim>\<open>OverflowError\<close> on an infinity.\<close>

definition int_of_float :: "xfloat \<Rightarrow> pyerr + int" where
  "int_of_float f = (case f of
     Finite y \<Rightarrow> Inr (if 0 \<le> y then \<lfloor>y\<rfloor> else \<lceil>y\<rceil>)
   | _ \<Rightarrow> Inl OverflowError)"


section \<open>Coordinate conversion (phone\_view.py)\<close>

text \<open>An exception ends the evaluation: \<open>bind_err\<close> sequences two steps that may raise.\<close>

definition bind_err :: "'e + 'a \<Rightarrow> ('a \<Rightarrow> 'e + 'b) \<Rightarrow> 'e + 'b" where
  "bind_err m f = (case m of Inl e \<Rightarrow> Inl e | Inr v \<Rightarrow> f v)"

text \<open>The expression \<^verbatim>\<open>int(rel / 1000 * sz)\<close>, evaluated left to right.\<close>

definition rel_to_px :: "int \<Rightarrow> int \<Rightarrow> pyerr + int" where
  "rel_to_px rel sz =
     bind_err (int_truediv rel 1000) (\<lambda>c.
     bind_err (float_of_int sz) (\<lambda>s.
     int_of_float (float_mul c s)))"

definition convert_relative_to_absolute :: "int \<Rightarrow> int \<Rightarrow> int \<Rightarrow> int \<Rightarrow> pyerr + (int \<times> int)" where
  "convert_relative_to_absolute rel_x rel_y screen_width screen_height =
     (let rel_x = max 0 (min 999 rel_x);
          rel_y = max 0 (min 999 rel_y)
      in bind_err (rel_to_px rel_x screen_width) (\<lambda>abs_x.
         bind_err (rel_to_px rel_y screen_height) (\<lambda>abs_y.
         Inr (abs_x, abs_y))))"

text \<open>The expression \<^verbatim>\<open>int(px * 1000 / sz)\<close>.\<close>

definition px_to_rel :: "int \<Rightarrow> int \<Rightarrow> pyerr + int" where
  "px_to_rel px sz =
     bind_err (int_truediv (px * 1000) sz) (\<lambda>q. int_of_float (Finite q))"

definition convert_absolute_to_relative :: "int \<Rightarrow> int \<Rightarrow> int \<Rightarrow> int \<Rightarrow> pyerr + (int \<times> int)" where
  "convert_absolute_to_relative abs_x abs_y screen_width screen_height =
     (let abs_x = max 0 (min (screen_width - 1) abs_x);
          abs_y = max 0 (min (screen_height - 1) abs_y)
      in bind_err (px_to_rel abs_x screen_width) (\<lambda>rel_x.
         bind_err (px_to_rel abs_y screen_height) (\<lambda>rel_y.
         Inr (rel_x, rel_y))))"

text \<open>
  \<open>validate_coordinates\<close> returns the clamped pair and the flag, and prints the soft-boundary
  warnings it collected on the error stream; the model returns them beside the triple.
  The margins are floats: \<^verbatim>\<open>screen_width * 0.05\<close> and \<^verbatim>\<open>screen_height * 0.1\<close>, the
  literals being the binary64 numbers nearest to 1/20 and 1/10.
\<close>

datatype warning = NearEdgeX int | NearStatusBar int | NearNavBar int

definition int_times_float :: "int \<Rightarrow> rat \<Rightarrow> pyerr + xfloat" where
  "int_times_float n c = bind_err (float_of_int n) (\<lambda>s. Inr (float_mul s c))"

definition int_minus_float :: "int \<Rightarrow> xfloat \<Rightarrow> pyerr + xfloat" where
  "int_minus_float n f = bind_err (float_of_int n) (\<lambda>s. Inr (float_sub s f))"

definition validate_coordinates ::
  "int \<Rightarrow> int \<Rightarrow> int \<Rightarrow> int \<Rightarrow> pyerr + ((int \<times> int \<times> bool) \<times> warning list)" where
  "validate_coordinates x y screen_width screen_height =
     (let original_x = x; original_y = y;
          valid_x = max 0 (min (screen_width - 1) x);
          valid_y = max 0 (min (screen_height - 1) y)
      in bind_err (int_times_float screen_width (fl (1 / 20))) (\<lambda>safe_margin_x.
         bind_err (int_times_float screen_height (fl (1 / 10))) (\<lambda>safe_margin_y_top.
         bind_err (int_times_float screen_height (fl (1 / 10))) (\<lambda>safe_margin_y_bottom.
         bind_err (int_minus_float screen_width safe_margin_x) (\<lambda>right_edge.
         bind_err (int_minus_float screen_height safe_margin_y_bottom) (\<lambda>nav_edge.
         let warnings =
               (if int_lt_float x safe_margin_x \<or> int_gt_float x right_edge
                then [NearEdgeX x] else []) @
               (if int_lt_float y safe_margin_y_top then [NearStatusBar y] else []) @
               (if int_gt_float y nav_edge then [NearNavBar y] else []);
             was_corrected = (original_x \<noteq> valid_x \<or> original_y \<noteq> valid_y)
         in Inr ((valid_x, valid_y, was_corrected), warnings)))))))"


section \<open>Text and patterns\<close>

text \<open>
  A Python \<^verbatim>\<open>str\<close> that the scripts scan (the output of a process, the narrative of
  the vision model) is the list of its code points; \<open>lit\<close> is a literal of the script
  written in ASCII. The words of a command line are only compared and handed on: they stay of
  type \<^typ>\<open>string\<close>.
\<close>

type_synonym pystr = "nat list"

definition lit :: "string \<Rightarrow> pystr" where
  "lit s = map of_char s"

text \<open>
  The class \<^verbatim>\<open>\s\<close> of a \<^verbatim>\<open>str\<close> pattern, which is also what \<^verbatim>\<open>str.strip()\<close>
  removes: the 29 code points that \<^verbatim>\<open>str.isspace()\<close> accepts, among them the no-break
  space U+00A0 and the ideographic space U+3000.
\<close>

definition is_space :: "nat \<Rightarrow> bool" where
  "is_space c =
     ((0x09 \<le> c \<and> c \<le> 0x0D) \<or> (0x1C \<le> c \<and> c \<le> 0x20) \<or> c = 0x85 \<or> c = 0xA0
      \<or> c = 0x1680 \<or> (0x2000 \<le> c \<and> c \<le> 0x200A) \<or> c = 0x2028 \<or> c = 0x2029
      \<or> c = 0x202F \<or> c = 0x205F \<or> c = 0x3000)"

text \<open>
  The class \<^verbatim>\<open>\d\<close> of a \<^verbatim>\<open>str\<close> pattern: the decimal digits of every script
  (category Nd; Unicode 14, the tables of CPython 3.11). They come in 66 runs of ten code
  points in the order 0 to 9, listed here by the code point of the zero; \<^verbatim>\<open>int\<close> reads
  each of them as its place in the run.
\<close>

definition decimal_zeros :: "nat list" where
  "decimal_zeros =
     [0x30, 0x660, 0x6F0, 0x7C0, 0x966, 0x9E6, 0xA66, 0xAE6, 0xB66, 0xBE6, 0xC66, 0xCE6, 0xD66,
      0xDE6, 0xE50, 0xED0, 0xF20, 0x1040, 0x1090, 0x17E0, 0x1810, 0x1946, 0x19D0, 0x1A80,
      0x1A90, 0x1B50, 0x1BB0, 0x1C40, 0x1C50, 0xA620, 0xA8D0, 0xA900, 0xA9D0, 0xA9F0, 0xAA50,
      0xABF0, 0xFF10, 0x104A0, 0x10D30, 0x11066, 0x110F0, 0x11136, 0x111D0, 0x112F0, 0x11450,
      0x114D0, 0x11650, 0x116C0, 0x11730, 0x118E0, 0x11950, 0x11C50, 0x11D50, 0x11DA0, 0x16A60,
      0x16AC0, 0x16B50, 0x1D7CE, 0x1D7D8, 0x1D7E2, 0x1D7EC, 0x1D7F6, 0x1E140, 0x1E2F0, 0x1E950,
      0x1FBF0]"

definition digit_value :: "nat \<Rightarrow> nat option" where
  "digit_value c = map_option (\<lambda>z. c - z) (find (\<lambda>z. z \<le> c \<and> c < z + 10) decimal_zeros)"

definition is_digit :: "nat \<Rightarrow> bool" where
  "is_digit c = (digit_value c \<noteq> None)"

text \<open>
  \<^verbatim>\<open>int(s)\<close> on a group matched by \<^verbatim>\<open>(\d+)\<close>, a non-empty run of decimal digits.
  CPython (3.11 and later, and the security releases of the earlier branches) refuses a
  numeral of more than \<^verbatim>\<open>sys.int_max_str_digits\<close> digits, 4300 unless configured otherwise,
  with a \<^verbatim>\<open>ValueError\<close>; leading zeros count.
\<close>

definition int_max_str_digits :: nat where
  "int_max_str_digits = 4300"

definition int_of_str :: "pystr \<Rightarrow> pyerr + int" where
  "int_of_str ds =
     (if int_max_str_digits < length ds then Inl ValueError
      else Inr (foldl (\<lambda>n c. 10 * n + int (the (digit_value c))) 0 ds))"

text \<open>\<^verbatim>\<open>int(match.group(1)), int(match.group(2))\<close>.\<close>

definition int_pair :: "pystr \<times> pystr \<Rightarrow> pyerr + (int \<times> int)" where
  "int_pair groups =
     bind_err (int_of_str (fst groups)) (\<lambda>a.
     bind_err (int_of_str (snd groups)) (\<lambda>b. Inr (a, b)))"

fun strip_prefix :: "pystr \<Rightarrow> pystr \<Rightarrow> pystr option" where
  "strip_prefix [] s = Some s"
| "strip_prefix (p # ps) [] = None"
| "strip_prefix (p # ps) (c # cs) = (if p = c then strip_prefix ps cs else None)"

text \<open>The group \<^verbatim>\<open>(\d+)\<close>: the longest non-empty run of digits, and the rest.\<close>

definition number :: "pystr \<Rightarrow> (pystr \<times> pystr) option" where
  "number s = (let ds = takeWhile is_digit s in
     if ds = [] then None else Some (ds, dropWhile is_digit s))"

text \<open>
  A pattern \<^verbatim>\<open>pre(\d+)mid(\d+)post\<close> of literals and two groups, matched at the start of
  the text; \<open>skip_ws\<close> adds \<^verbatim>\<open>\s*\<close> after \<open>mid\<close>. Each greedy group has one way to
  match only, since the character that must follow it is outside its class. The result is the
  pair of the groups.
\<close>

definition two_numbers :: "pystr \<Rightarrow> pystr \<Rightarrow> bool \<Rightarrow> pystr \<Rightarrow> pystr \<Rightarrow> (pystr \<times> pystr) option" where
  "two_numbers pre mid skip_ws post s =
     Option.bind (strip_prefix pre s) (\<lambda>s1.
     Option.bind (number s1) (\<lambda>(a, s2).
     Option.bind (strip_prefix mid s2) (\<lambda>s3.
     Option.bind (number (if skip_ws then dropWhile is_space s3 else s3)) (\<lambda>(b, s4).
     Option.bind (strip_prefix post s4) (\<lambda>_. Some (a, b))))))"

definition one_number :: "pystr \<Rightarrow> pystr \<Rightarrow> pystr option" where
  "one_number pre s =
     Option.bind (strip_prefix pre s) (\<lambda>s1. Option.bind (number s1) (\<lambda>(a, _). Some a))"

text \<open>\<^verbatim>\<open>re.search\<close>: the match at the leftmost position that has one.\<close>

fun re_search :: "(pystr \<Rightarrow> 'a option) \<Rightarrow> pystr \<Rightarrow> 'a option" where
  "re_search m [] = m []"
| "re_search m (c # cs) = (case m (c # cs) of Some r \<Rightarrow> Some r | None \<Rightarrow> re_search m cs)"


section \<open>Screen geometry (phone\_view.py)\<close>

record CmdResult =
  ok :: bool
  command :: "string list"
  stdout :: pystr
  stderr :: pystr
  returncode :: int

text \<open>
  The collaborators of the resolver: \<open>run\<close> is \<^verbatim>\<open>_run\<close> (it returns a \<open>CmdResult\<close>,
  also on a timeout, and raises when the executable cannot be started), answering a given
  command line the same way during one resolution; \<open>image_size\<close> is
  \<^verbatim>\<open>Image.open(path).size\<close>.
\<close>

record env =
  pil_available :: bool
  path_exists :: "string \<Rightarrow> bool"
  image_size :: "string \<Rightarrow> pyerr + (int \<times> int)"
  run :: "string list \<Rightarrow> pyerr + CmdResult"

datatype source_tag = Screenshot | Adb | Default

record screen_info =
  width :: int
  height :: int
  density :: int
  aspect_ratio :: rat
  source :: source_tag

definition adb_base :: "string \<Rightarrow> string \<Rightarrow> string list" where
  "adb_base adb device = [adb, ''-s'', device]"

definition parse_display_info :: "pystr \<Rightarrow> pyerr + (int \<times> int)" where
  "parse_display_info dumpsys_output =
     (case re_search (two_numbers (lit ''init='') (lit ''x'') False []) dumpsys_output of
        Some groups \<Rightarrow> int_pair groups
      | None \<Rightarrow> Inr (1080, 2400))"

definition get_screen_size_via_adb :: "env \<Rightarrow> string \<Rightarrow> string \<Rightarrow> pyerr + (int \<times> int)" where
  "get_screen_size_via_adb ev adb device =
     (let base = adb_base adb device in
      bind_err (run ev (base @ [''shell'', ''wm'', ''size''])) (\<lambda>cmd_res.
      case (if ok cmd_res
            then re_search (two_numbers (lit ''Physical size: '') (lit ''x'') False [])
                   (stdout cmd_res)
            else None) of
        Some groups \<Rightarrow> int_pair groups
      | None \<Rightarrow>
          bind_err (run ev (base @ [''shell'', ''dumpsys'', ''window'', ''displays''])) (\<lambda>cmd_res.
          bind_err (parse_display_info (stdout cmd_res)) (\<lambda>(w, h).
            if w \<noteq> 1080 \<or> h \<noteq> 2400 then Inr (w, h)
            else
              bind_err (run ev (base @ [''shell'', ''dumpsys'', ''window''])) (\<lambda>cmd_res.
              (case re_search (two_numbers (lit ''mUnrestrictedScreen=('') (lit '','') False
                                 (lit '')'')) (stdout cmd_res) of
                 Some groups \<Rightarrow> int_pair groups
               | None \<Rightarrow> Inr (1080, 2400)))))))"

definition get_screen_density_via_adb :: "env \<Rightarrow> string \<Rightarrow> string \<Rightarrow> pyerr + int" where
  "get_screen_density_via_adb ev adb device =
     (let base = adb_base adb device in
      bind_err (run ev (base @ [''shell'', ''wm'', ''density''])) (\<lambda>density_res.
      case (if ok density_res
            then re_search (one_number (lit ''Physical density: '')) (stdout density_res)
            else None) of
        Some digits \<Rightarrow> int_of_str digits
      | None \<Rightarrow> Inr 420))"

text \<open>The second and third method: the device query, and the default when it raises.\<close>

definition screen_info_via_adb :: "env \<Rightarrow> string \<Rightarrow> string \<Rightarrow> pyerr + screen_info" where
  "screen_info_via_adb ev adb device =
     (case
        bind_err (get_screen_size_via_adb ev adb device) (\<lambda>(w, h).
        bind_err (get_screen_density_via_adb ev adb device) (\<lambda>d.
        bind_err (int_truediv w h) (\<lambda>ratio.
        Inr \<lparr>width = w, height = h, density = d,
             aspect_ratio = ratio, source = Adb\<rparr>)))
      of Inr info \<Rightarrow> Inr info
       | Inl e \<Rightarrow>
          bind_err (int_truediv 1080 2400) (\<lambda>ratio.
          Inr \<lparr>width = 1080, height = 2400, density = 420,
               aspect_ratio = ratio, source = Default\<rparr>))"

text \<open>The guard of the first method: a non-empty path of an existing file, and the decoder.\<close>

definition screenshot_usable :: "env \<Rightarrow> string option \<Rightarrow> bool" where
  "screenshot_usable ev screenshot_path =
     (case screenshot_path of None \<Rightarrow> False
      | Some p \<Rightarrow> p \<noteq> [] \<and> path_exists ev p \<and> pil_available ev)"

definition get_accurate_screen_info ::
  "env \<Rightarrow> string \<Rightarrow> string \<Rightarrow> string option \<Rightarrow> pyerr + screen_info" where
  "get_accurate_screen_info ev adb device screenshot_path =
     (if screenshot_usable ev screenshot_path then
        (case
           bind_err (image_size ev (the screenshot_path)) (\<lambda>(actual_width, actual_height).
           bind_err (get_screen_density_via_adb ev adb device) (\<lambda>d.
           bind_err (int_truediv actual_width actual_height) (\<lambda>ratio.
           Inr \<lparr>width = actual_width, height = actual_height, density = d,
                aspect_ratio = ratio, source = Screenshot\<rparr>)))
         of Inr info \<Rightarrow> Inr info
          | Inl e \<Rightarrow> screen_info_via_adb ev adb device)
      else screen_info_via_adb ev adb device)"

definition get_screen_info :: "env \<Rightarrow> string \<Rightarrow> string \<Rightarrow> pyerr + screen_info" where
  "get_screen_info ev adb device = get_accurate_screen_info ev adb device None"


text \<open>
  A device double for concrete runs: no usable screenshot, and each of the four queries
  (recognised by the words after \<^verbatim>\<open>adb -s device\<close>) returns the given exit flag and
  output. \<open>missing_adb\<close> is the environment in which the executable cannot be started.
\<close>

definition device_double :: "bool \<Rightarrow> pystr \<Rightarrow> pystr \<Rightarrow> pystr \<Rightarrow> pystr \<Rightarrow> env" where
  "device_double succeeds size_out displays_out window_out density_out =
     \<lparr>pil_available = False,
      path_exists = (\<lambda>_. False),
      image_size = (\<lambda>_. Inl (EnvError ''cannot identify image file'')),
      run = (\<lambda>cmd.
        Inr \<lparr>ok = succeeds, command = cmd,
             stdout = (if drop 3 cmd = [''shell'', ''wm'', ''size''] then size_out
                       else if drop 3 cmd = [''shell'', ''dumpsys'', ''window'', ''displays'']
                         then displays_out
                       else if drop 3 cmd = [''shell'', ''dumpsys'', ''window''] then window_out
                       else density_out),
             stderr = [], returncode = (if succeeds then 0 else 1)\<rparr>)\<rparr>"

definition missing_adb :: env where
  "missing_adb =
     \<lparr>pil_available = False,
      path_exists = (\<lambda>_. False),
      image_size = (\<lambda>_. Inl (EnvError ''cannot identify image file'')),
      run = (\<lambda>cmd. Inl (EnvError ''No such file or directory''))\<rparr>"


section \<open>Narrative extractor (phone\_view.py)\<close>

text \<open>
  The markers of the narrative, by the code points of the literals in the script: the target
  sign U+1F3AF, a space and the words for "relative coordinate" or "coordinate" with a
  full-width colon; the computer sign U+1F4BB with the word for "command"; the memo sign
  U+1F4DD; and the three priorities in parentheses.
\<close>

definition marker_rel :: pystr where
  "marker_rel = [0x1F3AF, 0x20, 0x76F8, 0x5BF9, 0x5750, 0x6807, 0xFF1A]"

definition marker_abs :: pystr where
  "marker_abs = [0x1F3AF, 0x20, 0x5750, 0x6807, 0xFF1A]"

definition marker_cmd :: pystr where
  "marker_cmd = [0x1F4BB, 0x20, 0x547D, 0x4EE4, 0xFF1A]"

definition memo_sign :: nat where
  "memo_sign = 0x1F4DD"

definition prio_high :: pystr where
  "prio_high = [0x28, 0x9AD8, 0x4F18, 0x5148, 0x7EA7, 0x29]"

definition prio_medium :: pystr where
  "prio_medium = [0x28, 0x4E2D, 0x4F18, 0x5148, 0x7EA7, 0x29]"

definition prio_low :: pystr where
  "prio_low = [0x28, 0x4F4E, 0x4F18, 0x5148, 0x7EA7, 0x29]"

text \<open>\<^verbatim>\<open>pat in s\<close>, \<^verbatim>\<open>s.strip()\<close> and \<^verbatim>\<open>s.split('\n')\<close>.\<close>

definition contains :: "pystr \<Rightarrow> pystr \<Rightarrow> bool" where
  "contains pat s = (re_search (strip_prefix pat) s \<noteq> None)"

definition strip :: "pystr \<Rightarrow> pystr" where
  "strip s = rev (dropWhile is_space (rev (dropWhile is_space s)))"

fun split_lines :: "pystr \<Rightarrow> pystr list" where
  "split_lines [] = [[]]"
| "split_lines (c # cs) =
     (if c = 0x0A then [] # split_lines cs
      else (case split_lines cs of l # ls \<Rightarrow> (c # l) # ls | [] \<Rightarrow> [[c]]))"

text \<open>The patterns of the extractor; the coordinate patterns return their two groups.\<close>

definition rel_coord_pattern :: "pystr \<Rightarrow> (pystr \<times> pystr) option" where
  "rel_coord_pattern = two_numbers (marker_rel @ lit ''('') (lit '','') True (lit '')'')"

definition abs_coord_pattern :: "pystr \<Rightarrow> (pystr \<times> pystr) option" where
  "abs_coord_pattern = two_numbers (marker_abs @ lit ''('') (lit '','') True (lit '')'')"

text \<open>\<^verbatim>\<open>([^memo\n]+)\<close>: the longest non-empty run without the memo sign and the newline.\<close>

definition command_pattern :: "pystr \<Rightarrow> pystr option" where
  "command_pattern s =
     Option.bind (strip_prefix marker_cmd s) (\<lambda>r.
       let t = takeWhile (\<lambda>c. c \<noteq> memo_sign \<and> c \<noteq> 0x0A) r in
       if t = [] then None else Some t)"

text \<open>
  \<^verbatim>\<open>\*\*(.+?)\*\*\<close>: after two stars, the shortest non-empty text followed by two stars
  (the dot matches every character of a line).
\<close>

fun until_stars :: "pystr \<Rightarrow> pystr option" where
  "until_stars [] = None"
| "until_stars (c # cs) =
     (if strip_prefix (lit ''**'') cs \<noteq> None then Some [c]
      else map_option ((#) c) (until_stars cs))"

definition element_pattern :: "pystr \<Rightarrow> pystr option" where
  "element_pattern s = Option.bind (strip_prefix (lit ''**'') s) until_stars"

definition priority_pattern :: "pystr \<Rightarrow> string option" where
  "priority_pattern s =
     (if strip_prefix prio_high s \<noteq> None then Some ''high''
      else if strip_prefix prio_medium s \<noteq> None then Some ''medium''
      else if strip_prefix prio_low s \<noteq> None then Some ''low''
      else None)"

text \<open>The test of a title line: \<^verbatim>\<open>re.match(r'^\d+\.', line.strip()) and '**' in line\<close>.\<close>

definition is_title_line :: "pystr \<Rightarrow> bool" where
  "is_title_line line =
     ((case number (strip line) of
         Some (n, rest) \<Rightarrow> (case rest of c # cs \<Rightarrow> c = 0x2E | [] \<Rightarrow> False)
       | None \<Rightarrow> False)
      \<and> contains (lit ''**'') line)"

text \<open>
  An element is a dictionary; the three optional keys are optional fields. The type and the
  priority are constants of the script.
\<close>

record element =
  description :: pystr
  el_type :: string
  priority :: string
  relative_coordinates :: "(int \<times> int) option"
  coordinates :: "(int \<times> int) option"
  el_command :: "pystr option"

definition new_element :: "pystr \<Rightarrow> element" where
  "new_element line =
     \<lparr>description = (case re_search element_pattern line of Some d \<Rightarrow> d | None \<Rightarrow> strip line),
      el_type = ''unknown'',
      priority = (case re_search priority_pattern line of Some p \<Rightarrow> p | None \<Rightarrow> ''medium''),
      relative_coordinates = None,
      coordinates = None,
      el_command = None\<rparr>"

text \<open>
  One turn of the loop over the lines. The state is the list \<open>elements\<close> and
  \<open>current_element\<close>, which is \<open>None\<close> for the empty dictionary.
\<close>

definition parse_line ::
  "screen_info \<Rightarrow> element list \<times> element option \<Rightarrow> pystr
     \<Rightarrow> pyerr + (element list \<times> element option)" where
  "parse_line si st line = (case st of (elements, current_element) \<Rightarrow>
     if is_title_line line then
       Inr ((case current_element of Some e \<Rightarrow> elements @ [e] | None \<Rightarrow> elements),
            Some (new_element line))
     else if contains marker_rel line \<and> current_element \<noteq> None then
       (case re_search rel_coord_pattern line of
          Some coord_match \<Rightarrow>
            bind_err (int_pair coord_match) (\<lambda>(rel_x, rel_y).
            bind_err (convert_relative_to_absolute rel_x rel_y (width si) (height si))
              (\<lambda>(abs_x, abs_y).
                 Inr (elements, Some ((the current_element)
                   \<lparr>relative_coordinates := Some (rel_x, rel_y),
                    coordinates := Some (abs_x, abs_y)\<rparr>))))
        | None \<Rightarrow> Inr st)
     else if contains marker_abs line \<and> current_element \<noteq> None
               \<and> coordinates (the current_element) = None then
       (case re_search abs_coord_pattern line of
          Some coord_match \<Rightarrow>
            bind_err (int_pair coord_match) (\<lambda>(abs_x, abs_y).
            bind_err (convert_absolute_to_relative abs_x abs_y (width si) (height si))
              (\<lambda>(rel_x, rel_y).
                 Inr (elements, Some ((the current_element)
                   \<lparr>coordinates := Some (abs_x, abs_y),
                    relative_coordinates := Some (rel_x, rel_y)\<rparr>))))
        | None \<Rightarrow> Inr st)
     else if contains marker_cmd line \<and> current_element \<noteq> None then
       (case re_search command_pattern line of
          Some c \<Rightarrow> Inr (elements, Some ((the current_element)\<lparr>el_command := Some (strip c)\<rparr>))
        | None \<Rightarrow> Inr st)
     else Inr st)"

fun parse_lines ::
  "screen_info \<Rightarrow> pystr list \<Rightarrow> element list \<times> element option
     \<Rightarrow> pyerr + (element list \<times> element option)" where
  "parse_lines si [] st = Inr st"
| "parse_lines si (line # rest) st = bind_err (parse_line si st line) (parse_lines si rest)"

definition parse_relative_coordinates_from_text :: "pystr \<Rightarrow> screen_info \<Rightarrow> pyerr + element list" where
  "parse_relative_coordinates_from_text text si =
     bind_err (parse_lines si (split_lines text) ([], None)) (\<lambda>(elements, current_element).
       Inr (case current_element of Some e \<Rightarrow> elements @ [e] | None \<Rightarrow> elements))"

text \<open>
  The readings of a line that the coordinate branches act on. A relative line is one with the
  relative marker whose pattern matches, read as the pair of its numbers; a legacy line is one
  without the relative marker, with the legacy marker and a match of the legacy pattern.
\<close>

definition relative_line :: "pystr \<Rightarrow> (pystr \<times> pystr) option" where
  "relative_line line =
     (if contains marker_rel line then re_search rel_coord_pattern line else None)"

definition legacy_line :: "pystr \<Rightarrow> (pystr \<times> pystr) option" where
  "legacy_line line =
     (if \<not> contains marker_rel line \<and> contains marker_abs line
      then re_search abs_coord_pattern line else None)"


text \<open>
  A sample narrative for concrete runs: a title line, a legacy absolute-coordinate line, a
  relative-coordinate line and a second legacy line, on the default screen. A second sample
  has the legacy lines only, and a third writes the relative line with an ideographic space
  and full-width digits.
\<close>

definition sample_screen :: screen_info where
  "sample_screen = \<lparr>width = 1080, height = 2400, density = 420,
     aspect_ratio = 8106479329266893 / 2 ^ 54, source = Default\<rparr>"

definition sample_title :: pystr where
  "sample_title = lit ''1. **OK**''"

definition sample_legacy_line :: pystr where
  "sample_legacy_line = marker_abs @ lit ''(540, 300)''"

definition sample_relative_line :: pystr where
  "sample_relative_line = marker_rel @ lit ''(250, 500)''"

definition sample_second_legacy_line :: pystr where
  "sample_second_legacy_line = marker_abs @ lit ''(100, 100)''"

definition sample_wide_line :: pystr where
  "sample_wide_line = marker_rel @ lit ''(250,'' @ [0x3000, 0xFF15, 0xFF10, 0xFF10] @ lit '')''"

definition sample_narrative :: pystr where
  "sample_narrative =
     sample_title @ [0x0A] @ sample_legacy_line @ [0x0A] @ sample_relative_line
       @ [0x0A] @ sample_second_legacy_line"

definition sample_legacy_narrative :: pystr where
  "sample_legacy_narrative =
     sample_title @ [0x0A] @ sample_legacy_line @ [0x0A] @ sample_second_legacy_line"

definition sample_wide_narrative :: pystr where
  "sample_wide_narrative =
     sample_title @ [0x0A] @ sample_legacy_line @ [0x0A] @ sample_wide_line"

definition sample_element :: element where
  "sample_element = \<lparr>description = lit ''OK'', el_type = ''unknown'', priority = ''medium'',
     relative_coordinates = None, coordinates = None, el_command = None\<rparr>"


section \<open>Auto-view orchestration (phone\_control.py)\<close>

text \<open>\<^verbatim>\<open>str(n)\<close> for an integer (the digit \<open>d\<close> is the code point \<open>48 + d\<close>).\<close>

function show_nat :: "nat \<Rightarrow> pystr" where
  "show_nat n =
     (if n < 10 then [48 + n] else show_nat (n div 10) @ [48 + n mod 10])"
  by pat_completeness auto
termination
  by (relation "measure id") auto

declare show_nat.simps [simp del]

definition show_int :: "int \<Rightarrow> pystr" where
  "show_int i = (if i < 0 then lit ''-'' @ show_nat (nat (- i)) else show_nat (nat i))"

text \<open>
  \<^verbatim>\<open>s.lower()\<close>, as far as a search for ASCII words in its result can tell: the letters A
  to Z are lowered, and so are the only two characters outside ASCII whose lower case has an
  ASCII letter in it, the dotted capital I (U+0130, lowered to \<open>i\<close> and a combining dot) and
  the Kelvin sign (U+212A, lowered to \<open>k\<close>). Every other character outside ASCII is lowered
  to characters outside ASCII and is left as it is here. Then \<^verbatim>\<open>s.rstrip()\<close>.
\<close>

definition lower :: "pystr \<Rightarrow> pystr" where
  "lower s = concat (map (\<lambda>c. if 65 \<le> c \<and> c \<le> 90 then [c + 32]
                               else if c = 0x130 then [0x69, 0x307]
                               else if c = 0x212A then [0x6B]
                               else [c]) s)"

definition rstrip :: "pystr \<Rightarrow> pystr" where
  "rstrip s = rev (dropWhile is_space (rev s))"

text \<open>
  The values of the dictionaries that are printed as JSON; \<open>JRaw\<close> is a decoded document
  passed on as it is.
\<close>

datatype jvalue = JBool bool | JInt int | JStr pystr | JNull | JRaw pystr

text \<open>
  The collaborators of one invocation. \<open>action\<close> is the \<open>CmdResult\<close> of the device action
  (the \<open>AdbClient\<close> method with its arguments prepared). \<open>clock_start\<close> and
  \<open>clock_observe\<close> are the two readings of \<^verbatim>\<open>time.time()\<close>, before the action and after
  the wait. \<open>view_proc\<close> is the run of \<^verbatim>\<open>phone_view.py describe\<close> with the given
  \<^verbatim>\<open>--timeout\<close> and \<^verbatim>\<open>--json\<close> flag, and \<open>json_loads\<close> is \<^verbatim>\<open>json.loads\<close> followed by
  \<^verbatim>\<open>.get("description", "")\<close> (a document that is no object has no \<^verbatim>\<open>get\<close>).
\<close>

datatype proc_outcome =
    Completed int pystr pystr
  | TimeoutExpired
  | FileNotFound
  | OtherException pystr

datatype json_outcome = JsonObject pystr | JsonNotObject pystr | JsonInvalid

record world =
  action :: CmdResult
  clock_start :: rat
  clock_observe :: rat
  view_proc :: "int \<Rightarrow> bool \<Rightarrow> proc_outcome"
  json_loads :: "pystr \<Rightarrow> json_outcome"
  phone_view_path :: pystr
  conversion_available :: bool

record args =
  arg_adb :: string
  arg_device :: string
  arg_timeout :: int
  arg_json :: bool
  arg_auto_view :: bool
  arg_wait :: rat
  arg_cmd :: string
  arg_relative :: bool
  arg_shell_args :: "string list"

text \<open>What \<^verbatim>\<open>_auto_view_screen\<close> returns (a string or a dictionary) and what it logs.\<close>

datatype view = ViewText pystr | ViewDict "(string \<times> jvalue) list"

datatype log =
    AutoViewFailed pystr "int option"
  | AutoViewTimeout int int
  | PhoneViewNotFound pystr
  | AutoViewError pystr
  | ErrorMessage string

definition mentions_timeout :: "pystr \<Rightarrow> bool" where
  "mentions_timeout error_output =
     (contains (lit ''timeout'') (lower error_output)
      \<or> contains (lit ''timed out'') (lower error_output))"

definition auto_view_screen :: "world \<Rightarrow> int \<Rightarrow> bool \<Rightarrow> view option \<times> log list" where
  "auto_view_screen wd timeout as_json =
     (case view_proc wd timeout as_json of
        Completed rc out err \<Rightarrow>
          if rc = 0 then
            (if as_json then
               (case json_loads wd out of
                  JsonObject d \<Rightarrow>
                    (Some (ViewDict [(''ok'', JBool True), (''description'', JStr d),
                                     (''raw'', JRaw out)]), [])
                | JsonInvalid \<Rightarrow>
                    (Some (ViewDict [(''ok'', JBool True), (''description'', JStr (strip out))]), [])
                | JsonNotObject msg \<Rightarrow>
                    (Some (ViewDict [(''ok'', JBool False), (''error'', JStr msg)]), []))
             else (Some (ViewText (strip out)), []))
          else
            (let stderr_text = strip err;
                 error_output = (if stderr_text \<noteq> [] then stderr_text
                                 else if strip out \<noteq> [] then strip out
                                 else lit ''returncode='' @ show_int rc);
                 timeout_error = mentions_timeout error_output
             in if as_json then
                  (Some (ViewDict [(''ok'', JBool False), (''error'', JStr error_output),
                                   (''returncode'', JInt rc),
                                   (''timeout_error'', JBool timeout_error),
                                   (''suggested_timeout'',
                                      if timeout_error then JInt (timeout * 2) else JNull)]), [])
                else
                  (None, [AutoViewFailed error_output
                            (if timeout_error then Some (timeout * 2) else None)]))
      | TimeoutExpired \<Rightarrow>
          if as_json then
            (Some (ViewDict [(''ok'', JBool False), (''timeout_error'', JBool True),
                             (''error'', JStr (lit ''Auto-view timeout after ''
                                               @ show_int timeout @ lit '' seconds'')),
                             (''suggested_timeout'', JInt (timeout * 2))]), [])
          else (None, [AutoViewTimeout timeout (timeout * 2)])
      | FileNotFound \<Rightarrow>
          if as_json then
            (Some (ViewDict [(''ok'', JBool False),
                             (''error'', JStr (lit ''phone_view.py not found at ''
                                               @ phone_view_path wd))]), [])
          else (None, [PhoneViewNotFound (phone_view_path wd)])
      | OtherException msg \<Rightarrow>
          if as_json then (Some (ViewDict [(''ok'', JBool False), (''error'', JStr msg)]), [])
          else (None, [AutoViewError msg]))"

text \<open>
  \<^verbatim>\<open>_print_result\<close>: what is printed, and the status of \<^verbatim>\<open>sys.exit\<close> when the text mode
  reports a failed action.
\<close>

datatype out =
    PrintJson CmdResult "view option"
  | PrintOut pystr
  | PrintErr pystr
  | PrintScreenView view

definition truthy :: "view option \<Rightarrow> bool" where
  "truthy v = (case v of None \<Rightarrow> False | Some (ViewText s) \<Rightarrow> s \<noteq> [] | Some (ViewDict d) \<Rightarrow> d \<noteq> [])"

definition status_of :: "CmdResult \<Rightarrow> int" where
  "status_of result = (if returncode result \<noteq> 0 then returncode result else 1)"

definition print_result :: "CmdResult \<Rightarrow> bool \<Rightarrow> view option \<Rightarrow> out list \<times> int option" where
  "print_result result as_json auto_view_desc =
     (if as_json then ([PrintJson result auto_view_desc], None)
      else if ok result then
        ((if strip (stdout result) \<noteq> [] then [PrintOut (rstrip (stdout result))] else []) @
         (if truthy auto_view_desc then [PrintScreenView (the auto_view_desc)] else []),
         None)
      else
        ((if strip (stdout result) \<noteq> [] then [PrintOut (rstrip (stdout result))] else []) @
         (if strip (stderr result) \<noteq> [] then [PrintErr (rstrip (stderr result))] else []),
         Some (status_of result)))"

text \<open>
  The record of one invocation: the exit status, what was printed and logged, the wait that
  was slept, and the call of \<^verbatim>\<open>_auto_view_screen\<close> (its timeout and JSON flag) when one
  was made.
\<close>

record run_result =
  exit_code :: int
  printed :: "out list"
  logged :: "log list"
  slept :: "rat option"
  observed :: "(int \<times> bool) option"

definition auto_view_commands :: "string set" where
  "auto_view_commands = {''tap'', ''swipe'', ''key'', ''text'', ''app''}"

text \<open>
  The budget: \<^verbatim>\<open>elapsed_time = time.time() - start_time\<close>,
  \<^verbatim>\<open>remaining_timeout = max(10, args.timeout - elapsed_time)\<close>, passed on as
  \<^verbatim>\<open>int(remaining_timeout)\<close>. \<^verbatim>\<open>max\<close> keeps its first argument unless the second is greater.
\<close>

definition remaining_budget :: "int \<Rightarrow> rat \<Rightarrow> rat \<Rightarrow> pyerr + int" where
  "remaining_budget timeout start_time now =
     (let elapsed_time = round64 (now - start_time)
      in bind_err (int_minus_float timeout elapsed_time) (\<lambda>rest.
         if int_lt_float 10 rest then int_of_float rest else Inr 10))"

definition execute_with_auto_view :: "args \<Rightarrow> world \<Rightarrow> pyerr + run_result" where
  "execute_with_auto_view a wd =
     (let result = action wd in
      if arg_auto_view a \<and> ok result \<and> arg_cmd a \<in> auto_view_commands then
        bind_err (remaining_budget (arg_timeout a) (clock_start wd) (clock_observe wd))
          (\<lambda>budget.
             case auto_view_screen wd budget (arg_json a) of (auto_view_desc, logs) \<Rightarrow>
             case print_result result (arg_json a) auto_view_desc of (outs, exited) \<Rightarrow>
               Inr \<lparr>exit_code = (case exited of Some c \<Rightarrow> c
                                  | None \<Rightarrow> if ok result then 0 else status_of result),
                    printed = outs, logged = logs,
                    slept = (if 0 < arg_wait a then Some (arg_wait a) else None),
                    observed = Some (budget, arg_json a)\<rparr>)
      else
        (case print_result result (arg_json a) None of (outs, exited) \<Rightarrow>
           Inr \<lparr>exit_code = (case exited of Some c \<Rightarrow> c
                              | None \<Rightarrow> if ok result then 0 else status_of result),
                printed = outs, logged = [], slept = None, observed = None\<rparr>))"

text \<open>A command that is printed without auto-view: \<^verbatim>\<open>_print_result(...); return 0\<close>.\<close>

definition print_only :: "args \<Rightarrow> world \<Rightarrow> pyerr + run_result" where
  "print_only a wd =
     (case print_result (action wd) (arg_json a) None of (outs, exited) \<Rightarrow>
        Inr \<lparr>exit_code = (case exited of Some c \<Rightarrow> c | None \<Rightarrow> 0),
             printed = outs, logged = [], slept = None, observed = None\<rparr>)"

definition early_exit :: "int \<Rightarrow> string \<Rightarrow> pyerr + run_result" where
  "early_exit code msg =
     Inr \<lparr>exit_code = code, printed = [], logged = [ErrorMessage msg], slept = None,
          observed = None\<rparr>"

definition main :: "args \<Rightarrow> world \<Rightarrow> pyerr + run_result" where
  "main a wd =
     (if arg_wait a < 0 then early_exit 1 ''Error: --wait time cannot be negative.''
      else if 60 < arg_wait a then early_exit 1 ''Error: --wait time cannot exceed 60 seconds.''
      else if arg_relative a \<and> \<not> conversion_available wd then
        early_exit 1 ''Error: --relative requires coordinate conversion functions which are not available.''
      else if arg_cmd a = ''connect'' then print_only a wd
      else if arg_cmd a = ''devices'' then print_only a wd
      else if arg_cmd a = ''tap'' then execute_with_auto_view a wd
      else if arg_cmd a = ''swipe'' then execute_with_auto_view a wd
      else if arg_cmd a = ''key'' then execute_with_auto_view a wd
      else if arg_cmd a = ''text'' then execute_with_auto_view a wd
      else if arg_cmd a = ''app'' then execute_with_auto_view a wd
      else if arg_cmd a = ''stop'' then print_only a wd
      else if arg_cmd a = ''shell'' then
        (if arg_shell_args a = [] then early_exit 2 ''No shell command provided.''
         else print_only a wd)
      else early_exit 2 (''Unknown command: '' @ arg_cmd a))"


text \<open>
  A sample invocation for concrete runs: \<^verbatim>\<open>--json --timeout 30 --wait 1.5 tap\<close>, an action
  that succeeds, three seconds between the two clock readings, and an observation that runs
  into its timeout.
\<close>

definition sample_args :: args where
  "sample_args = \<lparr>arg_adb = ''adb'', arg_device = ''127.0.0.1:5555'', arg_timeout = 30,
     arg_json = True, arg_auto_view = True, arg_wait = 3 / 2, arg_cmd = ''tap'',
     arg_relative = False, arg_shell_args = []\<rparr>"

definition sample_world :: world where
  "sample_world = \<lparr>
     action = \<lparr>ok = True, command = [''adb'', ''-s'', ''127.0.0.1:5555'', ''shell'', ''input'',
                  ''tap'', ''540'', ''300''], stdout = [], stderr = [], returncode = 0\<rparr>,
     clock_start = 1700000000, clock_observe = 1700000003,
     view_proc = (\<lambda>timeout as_json. TimeoutExpired),
     json_loads = (\<lambda>s. JsonInvalid),
     phone_view_path = lit ''scripts/phone_view.py'',
     conversion_available = True\<rparr>"


section \<open>Properties\<close>

subsection \<open>Rounding\<close>

lemma bitlen_powi:
  assumes "0 < p"
  shows "2 powi (bitlen p - 1) \<le> (of_int p :: rat)" and "(of_int p :: rat) < 2 powi (bitlen p)"
proof -
  from assms have b1: "1 \<le> bitlen p" by (simp add: bitlen_alt_def)
  from bitlen_bounds[OF assms] have lo: "2 ^ nat (bitlen p - 1) \<le> p" and hi: "p < 2 ^ nat (bitlen p)"
    by auto
  have "(2::rat) powi (bitlen p - 1) = 2 ^ nat (bitlen p - 1)"
    using b1 by (simp add: power_int_nonneg_exp)
  also have "\<dots> = of_int (2 ^ nat (bitlen p - 1))" by simp
  also have "\<dots> \<le> of_int p" using lo by (subst of_int_le_iff)
  finally show "2 powi (bitlen p - 1) \<le> (of_int p :: rat)" .
  have "(of_int p :: rat) < of_int (2 ^ nat (bitlen p))" using hi by (subst of_int_less_iff)
  also have "\<dots> = 2 ^ nat (bitlen p)" by simp
  also have "\<dots> = 2 powi (bitlen p)" using b1 by (simp add: power_int_nonneg_exp)
  finally show "(of_int p :: rat) < 2 powi (bitlen p)" .
qed

lemma ilog2_bounds:
  assumes "0 < x"
  shows "2 powi (ilog2 x) \<le> x" and "x < 2 powi (ilog2 x + 1)"
proof -
  obtain p q where pq: "quotient_of x = (p, q)" by (cases "quotient_of x")
  then have q: "0 < q" and x: "x = of_int p / of_int q"
    by (simp_all add: quotient_of_denom_pos quotient_of_div)
  from assms x q have p: "0 < p" by (simp add: zero_less_divide_iff)
  let ?k = "bitlen p - bitlen q"
  have qpos: "(0::rat) < of_int q" using q by simp
  have "x < 2 powi (bitlen p) / 2 powi (bitlen q - 1)"
  proof -
    have "of_int p / of_int q < (2 powi (bitlen p) :: rat) / of_int q"
      using bitlen_powi(2)[OF p] qpos by (simp add: divide_strict_right_mono)
    also have "\<dots> \<le> 2 powi (bitlen p) / 2 powi (bitlen q - 1)"
      using bitlen_powi(1)[OF q] by (intro divide_left_mono) (auto intro!: mult_pos_pos qpos)
    finally show ?thesis using x by simp
  qed
  also have "\<dots> = 2 powi (?k + 1)"
    by (simp add: power_int_diff power_int_add)
  finally have up: "x < 2 powi (?k + 1)" .
  have "2 powi (bitlen p - 1) / 2 powi (bitlen q) \<le> x"
  proof -
    have "(2 powi (bitlen p - 1) :: rat) / 2 powi (bitlen q) \<le> 2 powi (bitlen p - 1) / of_int q"
      using bitlen_powi(2)[OF q] qpos by (intro divide_left_mono) (auto intro!: mult_pos_pos)
    also have "\<dots> \<le> of_int p / of_int q"
      using bitlen_powi(1)[OF p] qpos by (simp add: divide_right_mono)
    finally show ?thesis using x by simp
  qed
  moreover have "(2 powi (bitlen p - 1) :: rat) / 2 powi (bitlen q) = 2 powi (?k - 1)"
    by (simp add: power_int_diff)
  ultimately have lo: "2 powi (?k - 1) \<le> x" by simp
  show "2 powi (ilog2 x) \<le> x"
    using lo by (simp add: ilog2_def pq Let_def)
  show "x < 2 powi (ilog2 x + 1)"
    using up by (auto simp add: ilog2_def pq Let_def not_le)
qed

lemma pow2_less_D: "(2::rat) powi a < 2 powi b \<Longrightarrow> a < b"
  using power_int_increasing[of b a "2::rat"] by (cases "a < b") simp_all

lemma rne_error: "\<bar>of_int (rne x) - x\<bar> \<le> 1 / 2"
  unfolding rne_def Let_def by (auto simp: abs_if) linarith+

lemma rne_of_int [simp]: "rne (of_int n) = n"
  by (simp add: rne_def)

lemma rne_range: "\<lfloor>x\<rfloor> \<le> rne x" "rne x \<le> \<lfloor>x\<rfloor> + 1"
  by (simp_all add: rne_def Let_def)

lemma rne_mono:
  assumes "x \<le> y"
  shows "rne x \<le> rne y"
proof (cases "\<lfloor>x\<rfloor> = \<lfloor>y\<rfloor>")
  case True
  then show ?thesis using assms by (auto simp add: rne_def Let_def)
next
  case False
  with assms have "\<lfloor>x\<rfloor> + 1 \<le> \<lfloor>y\<rfloor>" using floor_mono[OF assms] by linarith
  then show ?thesis using rne_range(2)[of x] rne_range(1)[of y] by linarith
qed

lemma fl_zero [simp]: "fl 0 = 0"
  by (simp add: fl_def)

text \<open>In the normal range the relative rounding error is at most the unit roundoff.\<close>

lemma fl_error:
  assumes "2 powi (- 1022) \<le> \<bar>x\<bar>"
  shows "\<bar>fl x - x\<bar> \<le> \<bar>x\<bar> * uround"
proof -
  have "(0::rat) < 2 powi (- 1022)" by simp
  with assms have xpos: "0 < \<bar>x\<bar>" by linarith
  then have x0: "x \<noteq> 0" by simp
  let ?e0 = "ilog2 \<bar>x\<bar>"
  from ilog2_bounds[OF xpos] have lo: "2 powi ?e0 \<le> \<bar>x\<bar>" and hi: "\<bar>x\<bar> < 2 powi (?e0 + 1)"
    by simp_all
  have "(2::rat) powi (- 1022) < 2 powi (?e0 + 1)" using assms hi by linarith
  then have "- 1022 < ?e0 + 1" by (rule pow2_less_D)
  then have e0: "max ?e0 (- 1022) = ?e0" by simp
  let ?q = "(2::rat) powi (?e0 - 52)"
  have qpos: "0 < ?q" by simp
  have flx: "fl x = of_int (rne (x / ?q)) * ?q"
    using x0 e0 by (simp add: fl_def Let_def)
  have "\<bar>fl x - x\<bar> = \<bar>of_int (rne (x / ?q)) - x / ?q\<bar> * ?q"
  proof -
    have "fl x - x = (of_int (rne (x / ?q)) - x / ?q) * ?q"
      using qpos by (simp add: flx field_simps)
    then show ?thesis using qpos by (simp add: abs_mult)
  qed
  also have "\<dots> \<le> (1 / 2) * ?q"
    using rne_error[of "x / ?q"] qpos by (intro mult_right_mono) simp_all
  also have "\<dots> = 2 powi ?e0 * uround"
    by (simp add: power_int_diff uround_def)
  also have "\<dots> \<le> \<bar>x\<bar> * uround"
    using lo by (intro mult_right_mono) (simp_all add: uround_def)
  finally show ?thesis .
qed

text \<open>Rounding never crosses an integer: below \<open>2^53\<close> every integer is a binary64 number.\<close>

lemma fl_ge_int:
  assumes "of_int n \<le> x" "0 \<le> x" "x < 2 ^ 53"
  shows "of_int n \<le> fl x"
proof (cases "x = 0")
  case True
  then show ?thesis using assms by simp
next
  case False
  with assms have xpos: "0 < x" by simp
  let ?e = "max (ilog2 \<bar>x\<bar>) (- 1022) - 52"
  let ?q = "(2::rat) powi ?e"
  have qpos: "0 < ?q" by simp
  have "(2::rat) powi (ilog2 x) < 2 powi 53"
    using ilog2_bounds(1)[OF xpos] assms(3) by simp
  then have "ilog2 x < 53" by (rule pow2_less_D)
  then have e: "?e \<le> 0" using xpos by simp
  have inv: "1 / ?q = of_int (2 ^ nat (- ?e))"
  proof -
    have "1 / ?q = 2 powi (- ?e)" by (simp only: power_int_minus_divide)
    also have "\<dots> = 2 ^ nat (- ?e)" using e by (simp add: power_int_nonneg_exp)
    finally show ?thesis by simp
  qed
  define m where "m = n * 2 ^ nat (- ?e)"
  have "of_int n / ?q = of_int n * (1 / ?q)" by simp
  also have "\<dots> = of_int m" unfolding inv m_def by simp
  finally have grid: "of_int n / ?q = of_int m" .
  have "of_int n / ?q \<le> x / ?q" using assms(1) qpos by (simp add: divide_right_mono)
  then have "rne (of_int m) \<le> rne (x / ?q)" unfolding grid by (rule rne_mono)
  then have "m \<le> rne (x / ?q)" by (simp only: rne_of_int)
  then have "(of_int m :: rat) \<le> of_int (rne (x / ?q))" by (subst of_int_le_iff)
  then have "of_int n / ?q \<le> of_int (rne (x / ?q))" unfolding grid .
  then have "of_int n \<le> of_int (rne (x / ?q)) * ?q"
    using qpos by (simp add: pos_divide_le_eq)
  then show ?thesis using False by (simp add: fl_def Let_def)
qed

text \<open>Evaluating \<open>fl\<close> at a given number: the exponent and the rounded significand determine it.\<close>

lemma rne_eqI: "\<bar>x - of_int m\<bar> < 1 / 2 \<Longrightarrow> rne x = m"
proof -
  assume a: "\<bar>x - of_int m\<bar> < 1 / 2"
  have "\<bar>of_int (rne x) - x\<bar> \<le> 1 / 2" by (rule rne_error)
  with a have "\<bar>(of_int (rne x) :: rat) - of_int m\<bar> < 1" by linarith
  then have "\<bar>rne x - m\<bar> < 1"
    by (metis of_int_1 of_int_abs of_int_diff of_int_less_iff)
  then show ?thesis by linarith
qed

lemma ilog2_eqI:
  assumes "2 powi e \<le> x" "x < 2 powi (e + 1)"
  shows "ilog2 x = e"
proof -
  have "(0::rat) < 2 powi e" by simp
  with assms have xpos: "0 < x" by linarith
  from ilog2_bounds[OF xpos] assms
  have "(2::rat) powi e < 2 powi (ilog2 x + 1)" "(2::rat) powi (ilog2 x) < 2 powi (e + 1)"
    by linarith+
  then have "e < ilog2 x + 1" "ilog2 x < e + 1" by (auto dest: pow2_less_D)
  then show ?thesis by linarith
qed

lemma fl_eqI:
  assumes "2 powi e \<le> \<bar>x\<bar>" "\<bar>x\<bar> < 2 powi (e + 1)" "- 1022 \<le> e"
    and "\<bar>x / 2 powi (e - 52) - of_int m\<bar> < 1 / 2"
  shows "fl x = of_int m * 2 powi (e - 52)"
proof -
  have "(0::rat) < 2 powi e" by simp
  with assms(1) have "0 < \<bar>x\<bar>" by linarith
  then have x0: "x \<noteq> 0" by simp
  have "ilog2 \<bar>x\<bar> = e" using assms(1,2) by (rule ilog2_eqI)
  then show ?thesis using x0 assms(3) rne_eqI[OF assms(4)] by (simp add: fl_def Let_def)
qed

lemma fl_bounds:
  assumes "2 powi (- 1022) \<le> x"
  shows "x * (1 - uround) \<le> fl x" and "fl x \<le> x * (1 + uround)"
proof -
  have "(0::rat) < 2 powi (- 1022)" by simp
  with assms have xpos: "0 < x" by linarith
  then have ax: "\<bar>x\<bar> = x" by simp
  from fl_error[of x] assms ax have "\<bar>fl x - x\<bar> \<le> x * uround" by simp
  then show "x * (1 - uround) \<le> fl x" and "fl x \<le> x * (1 + uround)"
    by (simp_all add: algebra_simps abs_le_iff)
qed

lemma uround_pos: "0 < uround" and uround_small: "uround \<le> 1 / 2 ^ 53"
  by (simp_all add: uround_def)

lemma round64_finite:
  assumes "x = 0 \<or> 2 powi (- 1022) \<le> x" "x \<le> 2 ^ 1023"
  shows "round64 x = Finite (fl x)"
proof (cases "x = 0")
  case True
  then show ?thesis by (simp add: round64_def)
next
  case False
  with assms have n: "2 powi (- 1022) \<le> x" by simp
  have "(0::rat) < 2 powi (- 1022)" by simp
  with n have xpos: "0 < x" by linarith
  have "fl x \<le> x * (1 + uround)" using n by (rule fl_bounds)
  also have "\<dots> \<le> 2 ^ 1023 * (1 + uround)"
    using assms(2) uround_pos by (intro mult_right_mono) simp_all
  also have "\<dots> < 2 ^ 1024" by (simp add: uround_def)
  finally have up: "fl x < 2 ^ 1024" .
  have "0 \<le> x * (1 - uround)" using xpos by (simp add: uround_def)
  also have "\<dots> \<le> fl x" using n by (rule fl_bounds)
  finally have "0 \<le> fl x" .
  then show ?thesis using up by (simp add: round64_def Let_def)
qed

subsection \<open>The value of the pixel expression\<close>

lemma tiny_le: "(2::rat) powi (- 1022) \<le> 1 / 4000"
  by simp

lemma uround_cube:
  "1 - 4 * uround \<le> (1 - uround) * (1 - uround) * (1 - uround)"
  "(1 + uround) * (1 + uround) * (1 + uround) \<le> 1 + 4 * uround"
  "0 \<le> 1 - uround" "1 / 2 \<le> 1 - uround" "1 + uround \<le> 2"
  "999 / 1000 * ((1 + uround) * (1 + uround)) \<le> 1"
  by (simp_all add: uround_def)

lemma of_int_le_pow: "(w::int) \<le> 2 ^ n \<Longrightarrow> (of_int w :: rat) \<le> 2 ^ n"
proof -
  assume "w \<le> 2 ^ n"
  then have "(of_int w :: rat) \<le> of_int (2 ^ n)" by (subst of_int_le_iff)
  then show ?thesis by simp
qed

lemma float_of_int_ok:
  assumes "1 \<le> w" "w \<le> 2 ^ 1023"
  shows "float_of_int w = Inr (fl (of_int w))"
proof -
  have "(1::rat) \<le> of_int w" using assms(1) by simp
  with tiny_le have "2 powi (- 1022) \<le> (of_int w :: rat)" by linarith
  then have "round64 (of_int w) = Finite (fl (of_int w))"
    using of_int_le_pow[OF assms(2)] by (intro round64_finite) simp_all
  then show ?thesis by (simp add: float_of_int_def)
qed

lemma rel_to_px_zero:
  assumes "1 \<le> w" "w \<le> 2 ^ 1023"
  shows "rel_to_px 0 w = Inr 0"
  using float_of_int_ok[OF assms]
  by (simp add: rel_to_px_def bind_err_def int_truediv_def round64_def float_mul_def int_of_float_def)

lemma rel_to_px_val:
  fixes r w :: int
  assumes r: "1 \<le> r" "r \<le> 999" and w: "1 \<le> w" "w \<le> 2 ^ 1023"
  shows "\<exists>F. rel_to_px r w = Inr \<lfloor>F\<rfloor>
    \<and> of_int r * of_int w / 1000 * (1 - 4 * uround) \<le> F
    \<and> F \<le> of_int r * of_int w / 1000 * (1 + 4 * uround)"
proof -
  define c0 where "c0 = (of_int r / 1000 :: rat)"
  define c where "c = fl c0"
  define W where "W = fl (of_int w)"
  define F where "F = fl (c * W)"
  define wq where "wq = (of_int w :: rat)"
  have c0: "1 / 1000 \<le> c0" "c0 \<le> 999 / 1000" using r by (simp_all add: c0_def)
  have wq: "1 \<le> wq" "wq \<le> 2 ^ 1023"
    using w(1) of_int_le_pow[OF w(2)] by (simp_all add: wq_def)
  have n0: "2 powi (- 1022) \<le> c0" using c0(1) tiny_le by linarith
  have nw: "2 powi (- 1022) \<le> wq" using wq(1) tiny_le by linarith
  have cb: "c0 * (1 - uround) \<le> c" "c \<le> c0 * (1 + uround)"
    unfolding c_def using fl_bounds[OF n0] by simp_all
  have Wb: "wq * (1 - uround) \<le> W" "W \<le> wq * (1 + uround)"
    unfolding W_def wq_def[symmetric] using fl_bounds[OF nw] by simp_all
  have c0pos: "0 \<le> c0 * (1 - uround)" using c0(1) uround_cube(3) by simp
  have wpos: "0 \<le> wq * (1 - uround)" using wq(1) uround_cube(3) by simp
  have cpos: "0 \<le> c" using c0pos cb(1) by linarith
  have Wpos: "0 \<le> W" using wpos Wb(1) by linarith
  have prod_lo: "c0 * (1 - uround) * (wq * (1 - uround)) \<le> c * W"
    using cb(1) Wb(1) c0pos wpos cpos by (intro mult_mono) simp_all
  have prod_hi: "c * W \<le> c0 * (1 + uround) * (wq * (1 + uround))"
    using cb(2) Wb(2) cpos Wpos c0(1) by (intro mult_mono) (simp_all add: uround_def)
  have "1 / 4000 \<le> (1 / 1000) * (1 / 2) * (1 * (1 / 2 :: rat))" by simp
  also have "\<dots> \<le> c0 * (1 - uround) * (wq * (1 - uround))"
    using c0(1) wq(1) uround_cube(4) by (intro mult_mono) simp_all
  finally have "1 / 4000 \<le> c * W" using prod_lo by linarith
  then have np: "2 powi (- 1022) \<le> c * W" using tiny_le by linarith
  have "c0 * (1 + uround) * (wq * (1 + uround)) = c0 * ((1 + uround) * (1 + uround)) * wq"
    by simp
  also have "\<dots> \<le> 1 * wq"
  proof (intro mult_right_mono)
    have "c0 * ((1 + uround) * (1 + uround)) \<le> 999 / 1000 * ((1 + uround) * (1 + uround))"
      using c0(2) by (intro mult_right_mono) (simp_all add: uround_def)
    then show "c0 * ((1 + uround) * (1 + uround)) \<le> 1" using uround_cube(6) by linarith
    show "0 \<le> wq" using wq(1) by simp
  qed
  finally have pw: "c * W \<le> wq" using prod_hi by simp
  then have pfin: "c * W \<le> 2 ^ 1023" using wq(2) by linarith
  have Fb: "c * W * (1 - uround) \<le> F" "F \<le> c * W * (1 + uround)"
    unfolding F_def using fl_bounds[OF np] by simp_all
  have Fpos: "0 \<le> F"
  proof -
    have "0 \<le> c * W * (1 - uround)" using cpos Wpos uround_cube(3) by simp
    then show ?thesis using Fb(1) by linarith
  qed
  have E: "of_int r * of_int w / 1000 = c0 * wq" by (simp add: c0_def wq_def)
  have Epos: "0 \<le> c0 * wq" using c0(1) wq(1) by simp
  have lo: "c0 * wq * (1 - 4 * uround) \<le> F"
  proof -
    have "c0 * wq * (1 - 4 * uround) \<le> c0 * wq * ((1 - uround) * (1 - uround) * (1 - uround))"
      using uround_cube(1) Epos by (intro mult_left_mono)
    also have "\<dots> = c0 * (1 - uround) * (wq * (1 - uround)) * (1 - uround)" by simp
    also have "\<dots> \<le> c * W * (1 - uround)"
      using prod_lo uround_cube(3) by (intro mult_right_mono)
    finally show ?thesis using Fb(1) by linarith
  qed
  have hi: "F \<le> c0 * wq * (1 + 4 * uround)"
  proof -
    have "c * W * (1 + uround) \<le> c0 * (1 + uround) * (wq * (1 + uround)) * (1 + uround)"
      using prod_hi by (intro mult_right_mono) (simp_all add: uround_def)
    also have "\<dots> = c0 * wq * ((1 + uround) * (1 + uround) * (1 + uround))" by simp
    also have "\<dots> \<le> c0 * wq * (1 + 4 * uround)"
      using uround_cube(2) Epos by (intro mult_left_mono)
    finally show ?thesis using Fb(2) by linarith
  qed
  have "int_truediv r 1000 = Inr c"
    using round64_finite[of c0] n0 c0(2)
    by (simp add: int_truediv_def c_def c0_def)
  moreover have "float_of_int w = Inr W"
    unfolding W_def using w by (rule float_of_int_ok)
  moreover have "float_mul c W = Finite F"
    unfolding float_mul_def F_def using np pfin by (intro round64_finite) simp_all
  ultimately have "rel_to_px r w = Inr \<lfloor>F\<rfloor>"
    using Fpos by (simp add: rel_to_px_def bind_err_def int_of_float_def)
  then show ?thesis using lo hi unfolding E by blast
qed

subsection \<open>Range and round trip of one axis\<close>

lemma uround_num:
  "999 / 1000 * (1 + 4 * uround) < 1"
  "4 * uround * 999 \<le> 1 / 1000"
  "999 * (1 + 4 * uround) * (1 + uround) < 1000"
  "0 \<le> 1 - 4 * uround" "0 \<le> 1 + 4 * uround"
  by (simp_all add: uround_def)

lemma px_to_rel_val:
  fixes a w :: int
  assumes a: "0 \<le> a" "a \<le> w - 1" and w: "w \<le> 2 ^ 1023"
  defines "G \<equiv> (of_int a * 1000 / of_int w :: rat)"
  shows "px_to_rel a w = Inr \<lfloor>fl G\<rfloor>" and "0 \<le> fl G" and "G = 0 \<or> 2 powi (- 1022) \<le> G"
proof -
  from a have w1: "1 \<le> w" by linarith
  have wq: "(1::rat) \<le> of_int w" "(of_int w :: rat) \<le> 2 ^ 1023"
    using w1 of_int_le_pow[OF w] by simp_all
  have G0: "0 \<le> G" using a(1) wq(1) by (simp add: G_def)
  have "of_int a \<le> (of_int w :: rat)" using a(2) by simp
  then have "of_int a * 1000 \<le> 1000 * (of_int w :: rat)" by simp
  then have Gle: "G \<le> 1000" using wq(1) by (simp add: G_def pos_divide_le_eq)
  show norm: "G = 0 \<or> 2 powi (- 1022) \<le> G"
  proof (cases "a = 0")
    case True
    then show ?thesis by (simp add: G_def)
  next
    case False
    with a(1) have "(1::rat) \<le> of_int a" by simp
    then have "1000 / 2 ^ 1023 \<le> of_int a * 1000 / (2 ^ 1023 :: rat)"
      by (simp add: divide_right_mono)
    also have "\<dots> \<le> G" unfolding G_def
      using wq a(1) by (intro divide_left_mono) simp_all
    finally have "1000 / 2 ^ 1023 \<le> G" .
    moreover have "(2::rat) powi (- 1022) \<le> 1000 / 2 ^ 1023" by simp
    ultimately show ?thesis by linarith
  qed
  have fin: "round64 G = Finite (fl G)"
    using norm Gle by (intro round64_finite) simp_all
  show pos: "0 \<le> fl G"
    using fl_ge_int[of 0 G] G0 Gle by simp
  have "int_truediv (a * 1000) w = Inr (fl G)"
    using w1 fin by (simp add: int_truediv_def G_def)
  then show "px_to_rel a w = Inr \<lfloor>fl G\<rfloor>"
    using pos by (simp add: px_to_rel_def bind_err_def int_of_float_def)
qed

lemma rel_to_px_range:
  fixes r w :: int
  assumes r: "0 \<le> r" "r \<le> 999" and w: "1 \<le> w" "w \<le> 2 ^ 1023"
  shows "\<exists>a. rel_to_px r w = Inr a \<and> 0 \<le> a \<and> a \<le> w - 1"
proof (cases "r = 0")
  case True
  then show ?thesis using rel_to_px_zero[OF w] w(1) by simp
next
  case False
  with r have r1: "1 \<le> r" by simp
  from rel_to_px_val[OF r1 r(2) w] obtain F where
    F: "rel_to_px r w = Inr \<lfloor>F\<rfloor>"
      "of_int r * of_int w / 1000 * (1 - 4 * uround) \<le> F"
      "F \<le> of_int r * of_int w / 1000 * (1 + 4 * uround)" by blast
  define rq wq where "rq = (of_int r :: rat)" and "wq = (of_int w :: rat)"
  have rq: "1 \<le> rq" "rq \<le> 999" using r1 r(2) by (simp_all add: rq_def)
  have wq: "1 \<le> wq" using w(1) by (simp add: wq_def)
  have "0 \<le> rq * wq / 1000 * (1 - 4 * uround)"
    using rq(1) wq uround_num(4) by simp
  then have Fpos: "0 \<le> F" using F(2) unfolding rq_def wq_def by linarith
  have "rq * wq / 1000 * (1 + 4 * uround) \<le> 999 * wq / 1000 * (1 + 4 * uround)"
    using rq(2) wq uround_num(5) by (intro mult_right_mono divide_right_mono) simp_all
  also have "\<dots> = (999 / 1000 * (1 + 4 * uround)) * wq" by simp
  also have "\<dots> < 1 * wq"
    using uround_num(1) wq by (intro mult_strict_right_mono) simp_all
  finally have "F < wq" using F(3) unfolding rq_def wq_def by simp
  then have "\<lfloor>F\<rfloor> < w" unfolding wq_def by (simp add: floor_less_iff)
  moreover have "0 \<le> \<lfloor>F\<rfloor>" using Fpos by simp
  ultimately show ?thesis using F(1) by auto
qed

lemma roundtrip_axis:
  fixes r w :: int
  assumes r: "0 \<le> r" "r \<le> 999" and w: "1000 \<le> w" "w \<le> 2 ^ 1023"
  shows "\<exists>a b. rel_to_px r w = Inr a \<and> 0 \<le> a \<and> a \<le> w - 1
     \<and> px_to_rel a w = Inr b \<and> r - 1 \<le> b \<and> b \<le> r"
proof (cases "r = 0")
  case True
  from w have w1: "1 \<le> w" by simp
  have "px_to_rel 0 w = Inr 0"
    using w1 by (simp add: px_to_rel_def bind_err_def int_truediv_def round64_def int_of_float_def)
  then show ?thesis using True rel_to_px_zero[OF w1 w(2)] w1 by simp
next
  case False
  with r have r1: "1 \<le> r" by simp
  from w have w1: "1 \<le> w" by simp
  from rel_to_px_val[OF r1 r(2) w1 w(2)] obtain F where
    F: "rel_to_px r w = Inr \<lfloor>F\<rfloor>"
      "of_int r * of_int w / 1000 * (1 - 4 * uround) \<le> F"
      "F \<le> of_int r * of_int w / 1000 * (1 + 4 * uround)" by blast
  from rel_to_px_range[OF r w1 w(2)] F(1)
  have a: "0 \<le> \<lfloor>F\<rfloor>" "\<lfloor>F\<rfloor> \<le> w - 1" by auto
  define a where "a = \<lfloor>F\<rfloor>"
  define rq wq where "rq = (of_int r :: rat)" and "wq = (of_int w :: rat)"
  define G where "G = (of_int a * 1000 / of_int w :: rat)"
  have rq: "1 \<le> rq" "rq \<le> 999" using r1 r(2) by (simp_all add: rq_def)
  have wq: "1000 \<le> wq" using w(1) by (simp add: wq_def)
  have wpos: "0 < wq" using wq by simp
  have a2: "0 \<le> a" "a \<le> w - 1" using a unfolding a_def by blast+
  note pv = px_to_rel_val[OF a2 w(2), folded G_def]
  have aF: "of_int a \<le> F" unfolding a_def by simp
  \<comment> \<open>upper bound\<close>
  have "G \<le> F * 1000 / wq"
    unfolding G_def wq_def[symmetric] using aF wpos by (intro divide_right_mono mult_right_mono) simp_all
  also have "\<dots> \<le> (rq * wq / 1000 * (1 + 4 * uround)) * 1000 / wq"
    using F(3) wpos unfolding rq_def wq_def
    by (intro divide_right_mono mult_right_mono) simp_all
  also have "\<dots> = rq * (1 + 4 * uround)" using wpos by simp
  finally have Gup: "G \<le> rq * (1 + 4 * uround)" .
  have flG: "fl G \<le> G * (1 + uround)"
  proof (cases "G = 0")
    case True then show ?thesis by simp
  next
    case False
    with pv(3) have "2 powi (- 1022) \<le> G" by simp
    then show ?thesis by (rule fl_bounds)
  qed
  define t where "t = (1 + 4 * uround) * (1 + uround)"
  have t: "1 \<le> t" "999 * t < 1000" unfolding t_def by (simp_all add: uround_def)
  have "G * (1 + uround) \<le> rq * (1 + 4 * uround) * (1 + uround)"
    using Gup by (intro mult_right_mono) (simp_all add: uround_def)
  also have "\<dots> = rq * t" by (simp add: t_def)
  finally have "fl G \<le> rq * t" using flG by linarith
  moreover have "rq * t < rq + 1"
  proof -
    have "rq * (t - 1) \<le> 999 * (t - 1)"
      using rq(2) t(1) by (intro mult_right_mono) simp_all
    moreover have "rq * (t - 1) = rq * t - rq" "999 * (t - 1) = 999 * t - 999"
      by (simp_all add: right_diff_distrib)
    ultimately show ?thesis using t(2) by linarith
  qed
  ultimately have "fl G < rq + 1" by linarith
  then have "fl G < of_int (r + 1)" unfolding rq_def by simp
  then have "\<lfloor>fl G\<rfloor> < r + 1" by (simp only: floor_less_iff)
  then have up: "\<lfloor>fl G\<rfloor> \<le> r" by simp
  \<comment> \<open>lower bound\<close>
  define k where "k = (r - 1) * w"
  define z where "z = (k + 999) div 1000"
  have "(k + 999) div 1000 * 1000 + (k + 999) mod 1000 = k + 999" by (rule div_mult_mod_eq)
  moreover have "0 \<le> (k + 999) mod 1000" "(k + 999) mod 1000 < 1000" by simp_all
  ultimately have z: "k \<le> z * 1000" "z * 1000 \<le> k + 999" unfolding z_def by linarith+
  have kq: "(of_int k :: rat) = rq * wq - wq"
    by (simp add: k_def rq_def wq_def left_diff_distrib)
  have "(of_int (z * 1000) :: rat) \<le> of_int (k + 999)" using z(2) by (subst of_int_le_iff)
  then have z1: "of_int z * 1000 \<le> rq * wq - wq + (999 :: rat)" using kq by simp
  have "4 * uround * rq \<le> 4 * uround * 999"
    using rq(2) by (intro mult_left_mono) (simp_all add: uround_def)
  then have "4 * uround * rq \<le> 1 / 1000" using uround_num(2) by linarith
  then have "4 * uround * rq * wq \<le> 1 / 1000 * wq"
    using wpos by (intro mult_right_mono) simp_all
  also have "\<dots> \<le> wq - 999" using wq by simp
  finally have z2: "4 * uround * rq * wq \<le> wq - 999" .
  have z3: "rq * wq * (1 - 4 * uround) = rq * wq - 4 * uround * rq * wq"
    by (simp add: right_diff_distrib)
  have "of_int z * 1000 \<le> rq * wq * (1 - 4 * uround)" using z1 z2 z3 by linarith
  then have "of_int z \<le> rq * wq * (1 - 4 * uround) / 1000" by simp
  also have "\<dots> = rq * wq / 1000 * (1 - 4 * uround)" by simp
  finally have "of_int z \<le> F" using F(2) unfolding rq_def wq_def by linarith
  then have "z \<le> a" unfolding a_def by (simp add: le_floor_iff)
  then have "k \<le> a * 1000" using z(1) by linarith
  then have "(of_int k :: rat) \<le> of_int (a * 1000)" by (subst of_int_le_iff)
  then have "rq * wq - wq \<le> of_int a * 1000" using kq by simp
  moreover have "(rq - 1) * wq = rq * wq - wq" by (simp add: left_diff_distrib)
  ultimately have "(rq - 1) * wq \<le> of_int a * 1000" by simp
  then have "rq - 1 \<le> of_int a * 1000 / wq" using wpos by (simp add: pos_le_divide_eq)
  then have Glow: "of_int (r - 1) \<le> G" unfolding G_def rq_def wq_def by simp
  have "(0::rat) \<le> of_int (r - 1)" using r1 by simp
  then have G0: "0 \<le> G" using Glow by linarith
  have "rq * (1 + 4 * uround) \<le> 999 * (1 + 4 * uround)"
    using rq(2) uround_num(5) by (intro mult_right_mono)
  moreover have "999 * (1 + 4 * uround) < 2 ^ 53" by (simp add: uround_def)
  ultimately have "G < 2 ^ 53" using Gup by linarith
  from fl_ge_int[OF Glow G0 this] have lo: "r - 1 \<le> \<lfloor>fl G\<rfloor>" by (simp add: le_floor_iff)
  show ?thesis using F(1) a pv(1) lo up unfolding a_def by blast
qed

subsection \<open>Exact values\<close>

lemma fl_le_int:
  assumes "x \<le> of_int n" "0 \<le> x" "x < 2 ^ 53"
  shows "fl x \<le> of_int n"
proof (cases "x = 0")
  case True
  then show ?thesis using assms by simp
next
  case False
  with assms have xpos: "0 < x" by simp
  let ?e = "max (ilog2 \<bar>x\<bar>) (- 1022) - 52"
  let ?q = "(2::rat) powi ?e"
  have qpos: "0 < ?q" by simp
  have "(2::rat) powi (ilog2 x) < 2 powi 53"
    using ilog2_bounds(1)[OF xpos] assms(3) by simp
  then have "ilog2 x < 53" by (rule pow2_less_D)
  then have e: "?e \<le> 0" using xpos by simp
  have inv: "1 / ?q = of_int (2 ^ nat (- ?e))"
  proof -
    have "1 / ?q = 2 powi (- ?e)" by (simp only: power_int_minus_divide)
    also have "\<dots> = 2 ^ nat (- ?e)" using e by (simp add: power_int_nonneg_exp)
    finally show ?thesis by simp
  qed
  define m where "m = n * 2 ^ nat (- ?e)"
  have "of_int n / ?q = of_int n * (1 / ?q)" by simp
  also have "\<dots> = of_int m" unfolding inv m_def by simp
  finally have grid: "of_int n / ?q = of_int m" .
  have "x / ?q \<le> of_int n / ?q" using assms(1) qpos by (simp add: divide_right_mono)
  then have "rne (x / ?q) \<le> rne (of_int m)" unfolding grid by (rule rne_mono)
  then have "rne (x / ?q) \<le> m" by (simp only: rne_of_int)
  then have "(of_int (rne (x / ?q)) :: rat) \<le> of_int m" by (subst of_int_le_iff)
  then have "of_int (rne (x / ?q)) \<le> of_int n / ?q" unfolding grid .
  then have "of_int (rne (x / ?q)) * ?q \<le> of_int n"
    using qpos by (simp add: pos_le_divide_eq)
  then show ?thesis using False by (simp add: fl_def Let_def)
qed

lemma fl_of_int:
  assumes "0 \<le> n" "n < 2 ^ 53"
  shows "fl (of_int n) = of_int n"
proof -
  have a: "(0::rat) \<le> of_int n" using assms(1) by simp
  have "(of_int n :: rat) < of_int (2 ^ 53)" using assms(2) by (subst of_int_less_iff)
  then have b: "(of_int n :: rat) < 2 ^ 53" by simp
  from fl_le_int[of "of_int n" n] fl_ge_int[of n "of_int n"] a b show ?thesis by simp
qed

lemma fl_205: "fl (41 / 200) = 7385903388887613 / 2 ^ 55"
  using fl_eqI[of "- 3" "41 / 200" 7385903388887613] by simp

lemma fl_half: "fl (1 / 2) = 1 / 2"
  using fl_eqI[of "- 1" "1 / 2" "2 ^ 52"] by simp

lemma fl_nat: "fl 1080 = 1080" "fl 2400 = 2400" "fl 540 = 540" "fl 1 = 1"
  using fl_of_int[of 1080] fl_of_int[of 2400] fl_of_int[of 540] fl_of_int[of 1] by simp_all

lemma px_205: "rel_to_px 205 2400 = Inr 491"
proof -
  have c: "int_truediv 205 1000 = Inr (7385903388887613 / 2 ^ 55)"
    by (simp add: int_truediv_def round64_def fl_205)
  have s: "float_of_int 2400 = Inr 2400"
    by (simp add: float_of_int_def round64_def fl_nat)
  have p: "float_mul (7385903388887613 / 2 ^ 55) 2400 = Finite (8655355533852671 / 2 ^ 44)"
    using fl_eqI[of 8 "7385903388887613 / 2 ^ 55 * 2400" 8655355533852671]
    by (simp add: float_mul_def round64_def)
  have i: "int_of_float (Finite (8655355533852671 / 2 ^ 44)) = Inr 491"
    by (simp add: int_of_float_def floor_eq_iff)
  show ?thesis unfolding rel_to_px_def bind_err_def c s p i sum.case ..
qed

lemma px_500: "rel_to_px 500 1080 = Inr 540"
proof -
  have c: "int_truediv 500 1000 = Inr (1 / 2)"
    by (simp add: int_truediv_def round64_def fl_half)
  have s: "float_of_int 1080 = Inr 1080"
    by (simp add: float_of_int_def round64_def fl_nat)
  have p: "float_mul (1 / 2) 1080 = Finite 540"
    by (simp add: float_mul_def round64_def fl_nat)
  have i: "int_of_float (Finite 540) = Inr 540"
    by (simp add: int_of_float_def)
  show ?thesis unfolding rel_to_px_def bind_err_def c s p i sum.case ..
qed

text \<open>
  Claim C8 (the conversion returns the floor of \<open>relY / 1000 * height\<close>). On the default
  1080 x 2400 screen the call \<^verbatim>\<open>convert_relative_to_absolute(500, 205, 1080, 2400)\<close>
  returns the row 491, while the floor of the exact product 205 / 1000 * 2400 = 492 is 492:
  the binary64 product is 491.99999999999994 and \<^verbatim>\<open>int\<close> truncates it.
\<close>

theorem C8_float_truncation:
  "convert_relative_to_absolute 500 205 1080 2400 = Inr (540, 491)
   \<and> \<lfloor>(205::rat) / 1000 * 2400\<rfloor> = 492"
  by (simp add: convert_relative_to_absolute_def px_205 px_500 bind_err_def)

lemma px_500_1: "rel_to_px 500 1 = Inr 0"
proof -
  have c: "int_truediv 500 1000 = Inr (1 / 2)"
    by (simp add: int_truediv_def round64_def fl_half)
  have s: "float_of_int 1 = Inr 1"
    by (simp add: float_of_int_def round64_def fl_nat)
  have p: "float_mul (1 / 2) 1 = Finite (1 / 2)"
    by (simp add: float_mul_def round64_def fl_half)
  have i: "int_of_float (Finite (1 / 2)) = Inr 0"
    by (simp add: int_of_float_def floor_eq_iff)
  show ?thesis unfolding rel_to_px_def bind_err_def c s p i sum.case ..
qed

lemma rel_0_1: "px_to_rel 0 1 = Inr 0"
  by (simp add: px_to_rel_def bind_err_def int_truediv_def round64_def int_of_float_def Let_def)

text \<open>
  Claim C1 as stated (round trip within 1 unit for all positive sizes) fails on a screen
  one pixel wide: the relative coordinate 500 maps to pixel 0 and comes back as 0.
\<close>

theorem C1_counterexample:
  "convert_relative_to_absolute 500 500 1 1 = Inr (0, 0)
   \<and> convert_absolute_to_relative 0 0 1 1 = Inr (0, 0)
   \<and> \<not> \<bar>0 - 500\<bar> \<le> (1::int)"
  by (simp add: convert_relative_to_absolute_def convert_absolute_to_relative_def px_500_1 rel_0_1 bind_err_def)

subsection \<open>Round trip (claim C1)\<close>

text \<open>
  Claim C1, amended: for relative coordinates in [0, 999] and a screen at least 1000 pixels
  wide and high (and within the range of sizes that convert to a float, here up to 2^1023),
  \<open>convert_relative_to_absolute\<close> followed by \<open>convert_absolute_to_relative\<close> returns a pair
  within 1 unit of the original in each component: each component comes back unchanged or
  one less.
\<close>

theorem C1_roundtrip_large_screen:
  assumes "0 \<le> rel_x" "rel_x \<le> 999" "0 \<le> rel_y" "rel_y \<le> 999"
    and "1000 \<le> w" "w \<le> 2 ^ 1023" "1000 \<le> h" "h \<le> 2 ^ 1023"
  shows "\<exists>ax ay bx bY. convert_relative_to_absolute rel_x rel_y w h = Inr (ax, ay)
     \<and> convert_absolute_to_relative ax ay w h = Inr (bx, bY)
     \<and> rel_x - 1 \<le> bx \<and> bx \<le> rel_x \<and> rel_y - 1 \<le> bY \<and> bY \<le> rel_y"
proof -
  from roundtrip_axis[OF assms(1,2,5,6)] obtain ax bx where
    x: "rel_to_px rel_x w = Inr ax" "0 \<le> ax" "ax \<le> w - 1" "px_to_rel ax w = Inr bx"
      "rel_x - 1 \<le> bx" "bx \<le> rel_x" by blast
  from roundtrip_axis[OF assms(3,4,7,8)] obtain ay bY where
    y: "rel_to_px rel_y h = Inr ay" "0 \<le> ay" "ay \<le> h - 1" "px_to_rel ay h = Inr bY"
      "rel_y - 1 \<le> bY" "bY \<le> rel_y" by blast
  have clamp: "max 0 (min 999 rel_x) = rel_x" "max 0 (min 999 rel_y) = rel_y"
    "max 0 (min (w - 1) ax) = ax" "max 0 (min (h - 1) ay) = ay"
    using assms(1-4) x(2,3) y(2,3) by simp_all
  have "convert_relative_to_absolute rel_x rel_y w h = Inr (ax, ay)"
    by (simp add: convert_relative_to_absolute_def clamp x(1) y(1) bind_err_def)
  moreover have "convert_absolute_to_relative ax ay w h = Inr (bx, bY)"
    by (simp add: convert_absolute_to_relative_def clamp x(4) y(4) bind_err_def)
  ultimately show ?thesis using x(5,6) y(5,6) by blast
qed

theorem C1_roundtrip_witness:
  "(0::int) \<le> 500 \<and> (500::int) \<le> 999 \<and> (0::int) \<le> 205 \<and> (205::int) \<le> 999
   \<and> (1000::int) \<le> 1080 \<and> (1080::int) \<le> 2 ^ 1023 \<and> (1000::int) \<le> 2400 \<and> (2400::int) \<le> 2 ^ 1023
   \<and> (\<exists>ax ay bx bY. convert_relative_to_absolute 500 205 1080 2400 = Inr (ax, ay)
     \<and> convert_absolute_to_relative ax ay 1080 2400 = Inr (bx, bY)
     \<and> 499 \<le> bx \<and> bx \<le> 500 \<and> 204 \<le> bY \<and> bY \<le> 205)"
  using C1_roundtrip_large_screen[of 500 205 1080 2400] by simp

subsection \<open>Validation (claim C9)\<close>

lemma float_of_int_huge: "float_of_int (2 ^ 1024) = Inl OverflowError"
proof -
  have "fl (2 ^ 1024) = 2 ^ 1024"
    using fl_eqI[of 1024 "2 ^ 1024" "2 ^ 52"] by simp
  then show ?thesis by (simp add: float_of_int_def round64_def)
qed

lemma validate_overflow:
  "float_of_int w = Inl e \<Longrightarrow> validate_coordinates x y w h = Inl e"
  by (simp add: validate_coordinates_def int_times_float_def bind_err_def)

text \<open>
  Claim C9 as stated (for all positive sizes) fails where the margin \<^verbatim>\<open>screen_width * 0.05\<close>
  cannot be computed: a width of 2^1024 does not convert to a float and the call raises.
\<close>

theorem C9_counterexample: "validate_coordinates 0 0 (2 ^ 1024) 1 = Inl OverflowError"
  using float_of_int_huge by (rule validate_overflow)

text \<open>
  Claim C9, amended: for sizes from 1 to 2^1023, \<open>validate_coordinates\<close> returns the pair
  clamped to [0, width - 1] x [0, height - 1]; the flag is true exactly when clamping changed
  a component, whatever warnings are printed; and validating the returned pair again returns
  the same pair with the flag false.
\<close>

theorem C9_clamp_idempotent:
  fixes x y w h :: int
  assumes "0 < w" "w \<le> 2 ^ 1023" "0 < h" "h \<le> 2 ^ 1023"
  shows "\<exists>vx vy ws ws'.
       vx = max 0 (min (w - 1) x) \<and> vy = max 0 (min (h - 1) y)
     \<and> validate_coordinates x y w h = Inr ((vx, vy, x \<noteq> vx \<or> y \<noteq> vy), ws)
     \<and> 0 \<le> vx \<and> vx \<le> w - 1 \<and> 0 \<le> vy \<and> vy \<le> h - 1
     \<and> validate_coordinates vx vy w h = Inr ((vx, vy, False), ws')"
proof -
  define cx cy where "cx = max 0 (min (w - 1) x)" and "cy = max 0 (min (h - 1) y)"
  have fw: "float_of_int w = Inr (fl (of_int w))" using assms(1,2) by (intro float_of_int_ok) simp_all
  have fh: "float_of_int h = Inr (fl (of_int h))" using assms(3,4) by (intro float_of_int_ok) simp_all
  have idem: "max 0 (min (w - 1) cx) = cx" "max 0 (min (h - 1) cy) = cy"
    using assms(1,3) by (simp_all add: cx_def cy_def)
  have rng: "0 \<le> cx" "cx \<le> w - 1" "0 \<le> cy" "cy \<le> h - 1"
    using assms(1,3) by (simp_all add: cx_def cy_def)
  have 1: "\<exists>ws. validate_coordinates x y w h = Inr ((cx, cy, x \<noteq> cx \<or> y \<noteq> cy), ws)"
    by (simp add: validate_coordinates_def int_times_float_def int_minus_float_def bind_err_def
        fw fh Let_def cx_def cy_def)
  have 2: "\<exists>ws'. validate_coordinates cx cy w h = Inr ((cx, cy, False), ws')"
    by (simp add: validate_coordinates_def int_times_float_def int_minus_float_def bind_err_def
        fw fh Let_def idem)
  from 1 2 rng cx_def cy_def show ?thesis by blast
qed

theorem C9_clamp_idempotent_witness:
  "(0::int) < 1080 \<and> (1080::int) \<le> 2 ^ 1023 \<and> (0::int) < 2400 \<and> (2400::int) \<le> 2 ^ 1023
   \<and> (\<exists>ws ws'. validate_coordinates 5000 (- 5) 1080 2400 = Inr ((1079, 0, True), ws)
     \<and> validate_coordinates 1079 0 1080 2400 = Inr ((1079, 0, False), ws'))"
  using C9_clamp_idempotent[of 1080 2400 5000 "- 5"] by simp

subsection \<open>The resolver (claims C2 and C3)\<close>

lemma digits_nonneg: "0 \<le> n \<Longrightarrow> 0 \<le> foldl (\<lambda>n c. 10 * n + int (the (digit_value c))) n ds"
  by (induction ds arbitrary: n) simp_all

lemma int_of_str_nonneg: "int_of_str ds = Inr n \<Longrightarrow> 0 \<le> n"
  using digits_nonneg[of 0 ds] by (auto simp: int_of_str_def split: if_splits)

lemma int_pair_nonneg: "int_pair g = Inr (a, b) \<Longrightarrow> 0 \<le> a \<and> 0 \<le> b"
  by (auto simp: int_pair_def bind_err_def split: sum.splits dest: int_of_str_nonneg)

lemma parse_display_info_nonneg: "parse_display_info s = Inr (w, h) \<Longrightarrow> 0 \<le> w \<and> 0 \<le> h"
  by (auto simp: parse_display_info_def split: option.splits dest: int_pair_nonneg)

lemma get_screen_size_nonneg:
  assumes "get_screen_size_via_adb ev adb device = Inr (w, h)"
  shows "0 \<le> w \<and> 0 \<le> h"
  using assms
  by (auto simp: get_screen_size_via_adb_def bind_err_def Let_def
      split: sum.splits option.splits if_splits prod.splits
      dest!: int_pair_nonneg parse_display_info_nonneg)

lemma get_screen_density_nonneg:
  assumes "get_screen_density_via_adb ev adb device = Inr d"
  shows "0 \<le> d"
  using assms
  by (auto simp: get_screen_density_via_adb_def bind_err_def Let_def
      split: sum.splits option.splits if_splits
      dest!: int_of_str_nonneg)

lemma int_truediv_InrD: "int_truediv a b = Inr r \<Longrightarrow> b \<noteq> 0"
  by (auto simp: int_truediv_def split: if_splits)

lemma default_ratio: "\<exists>r. int_truediv 1080 2400 = Inr r"
proof -
  have "round64 (of_int 1080 / of_int 2400) = Finite (fl (of_int 1080 / of_int 2400))"
    by (rule round64_finite) simp_all
  then show ?thesis by (simp add: int_truediv_def)
qed

lemma screen_info_via_adb_total:
  "\<exists>info. screen_info_via_adb ev adb device = Inr info
     \<and> 0 \<le> width info \<and> 0 < height info \<and> 0 \<le> density info \<and> source info \<noteq> Screenshot"
proof -
  obtain r where r: "int_truediv 1080 2400 = Inr r" using default_ratio by blast
  show ?thesis
  proof (cases "bind_err (get_screen_size_via_adb ev adb device) (\<lambda>(w, h).
        bind_err (get_screen_density_via_adb ev adb device) (\<lambda>d.
        bind_err (int_truediv w h) (\<lambda>ratio.
        Inr \<lparr>width = w, height = h, density = d, aspect_ratio = ratio, source = Adb\<rparr>)))")
    case (Inl e)
    then show ?thesis by (simp add: screen_info_via_adb_def r bind_err_def)
  next
    case (Inr info)
    then obtain w h d ratio where
      s: "get_screen_size_via_adb ev adb device = Inr (w, h)"
      and d: "get_screen_density_via_adb ev adb device = Inr d"
      and t: "int_truediv w h = Inr ratio"
      and i: "info = \<lparr>width = w, height = h, density = d, aspect_ratio = ratio, source = Adb\<rparr>"
      by (auto simp: bind_err_def split: sum.splits prod.splits)
    from get_screen_size_nonneg[OF s] int_truediv_InrD[OF t] get_screen_density_nonneg[OF d]
    have "0 \<le> w" "0 < h" "0 \<le> d" by auto
    then show ?thesis using Inr i by (simp add: screen_info_via_adb_def)
  qed
qed

text \<open>
  Claim C3, amended: for every environment, executable, device and screenshot path the
  resolver returns a record (every exception of a query is caught). Its height is never 0 and
  its density is never negative. When the dimensions do not come from the screenshot, the
  width is not negative and the height is positive; when they do, they are the dimensions the
  decoder reported. A width of 0 and a density of 0 are possible.
\<close>

theorem C3_resolver_total:
  "\<exists>info. get_accurate_screen_info ev adb device screenshot_path = Inr info
     \<and> height info \<noteq> 0 \<and> 0 \<le> density info
     \<and> (source info \<noteq> Screenshot \<longrightarrow> 0 \<le> width info \<and> 0 < height info)
     \<and> (source info = Screenshot \<longrightarrow>
          (\<exists>p. screenshot_path = Some p \<and> image_size ev p = Inr (width info, height info)))"
proof -
  from screen_info_via_adb_total[of ev adb device] obtain i2 where
    i2: "screen_info_via_adb ev adb device = Inr i2"
      "0 \<le> width i2" "0 < height i2" "0 \<le> density i2" "source i2 \<noteq> Screenshot" by blast
  show ?thesis
  proof (cases "screenshot_usable ev screenshot_path")
    case False
    then show ?thesis using i2 by (simp add: get_accurate_screen_info_def)
  next
    case True
    then obtain p where p: "screenshot_path = Some p"
      by (auto simp: screenshot_usable_def split: option.splits)
    show ?thesis
    proof (cases "bind_err (image_size ev (the screenshot_path)) (\<lambda>(actual_width, actual_height).
           bind_err (get_screen_density_via_adb ev adb device) (\<lambda>d.
           bind_err (int_truediv actual_width actual_height) (\<lambda>ratio.
           Inr \<lparr>width = actual_width, height = actual_height, density = d,
                aspect_ratio = ratio, source = Screenshot\<rparr>)))")
      case (Inl e)
      then show ?thesis using True i2 by (simp add: get_accurate_screen_info_def)
    next
      case (Inr info)
      then obtain w h d ratio where
        s: "image_size ev p = Inr (w, h)"
        and d: "get_screen_density_via_adb ev adb device = Inr d"
        and t: "int_truediv w h = Inr ratio"
        and i: "info = \<lparr>width = w, height = h, density = d, aspect_ratio = ratio, source = Screenshot\<rparr>"
        using p by (auto simp: bind_err_def split: sum.splits prod.splits)
      from int_truediv_InrD[OF t] get_screen_density_nonneg[OF d]
      have "h \<noteq> 0" "0 \<le> d" by auto
      then show ?thesis using Inr i True p s by (simp add: get_accurate_screen_info_def)
    qed
  qed
qed

lemma default_ratio_value: "int_truediv 1080 2400 = Inr (8106479329266893 / 2 ^ 54)"
proof -
  have "fl (9 / 20) = 8106479329266893 / 2 ^ 54"
    using fl_eqI[of "- 2" "9 / 20" 8106479329266893] by simp
  then show ?thesis by (simp add: int_truediv_def round64_def)
qed

text \<open>
  What the device query returns when no pattern gives a size, and the tag of whatever it
  returns: the size query has no way to report a failure other than raising.
\<close>

lemma size_all_fail:
  assumes "run ev (adb_base adb device @ [''shell'', ''wm'', ''size'']) = Inr r1"
    and "ok r1 \<longrightarrow>
         re_search (two_numbers (lit ''Physical size: '') (lit ''x'') False []) (stdout r1) = None"
    and "run ev (adb_base adb device @ [''shell'', ''dumpsys'', ''window'', ''displays'']) = Inr r2"
    and "parse_display_info (stdout r2) = Inr (1080, 2400)"
    and "run ev (adb_base adb device @ [''shell'', ''dumpsys'', ''window'']) = Inr r3"
    and "re_search (two_numbers (lit ''mUnrestrictedScreen=('') (lit '','') False (lit '')''))
           (stdout r3) = None"
  shows "get_screen_size_via_adb ev adb device = Inr (1080, 2400)"
  using assms
  by (auto simp: get_screen_size_via_adb_def bind_err_def Let_def)

lemma density_fail:
  assumes "run ev (adb_base adb device @ [''shell'', ''wm'', ''density'']) = Inr r4"
    and "ok r4 \<longrightarrow> re_search (one_number (lit ''Physical density: '')) (stdout r4) = None"
  shows "get_screen_density_via_adb ev adb device = Inr 420"
  using assms by (auto simp: get_screen_density_via_adb_def bind_err_def Let_def)

lemma device_query_tagged_adb:
  assumes "\<not> screenshot_usable ev path"
    and "get_screen_size_via_adb ev adb device = Inr (w, h)"
    and "get_screen_density_via_adb ev adb device = Inr d"
    and "int_truediv w h = Inr ratio"
  shows "get_accurate_screen_info ev adb device path =
     Inr \<lparr>width = w, height = h, density = d, aspect_ratio = ratio, source = Adb\<rparr>"
  using assms by (simp add: get_accurate_screen_info_def screen_info_via_adb_def bind_err_def)

lemma total_failure_tagged_adb:
  assumes "\<not> screenshot_usable ev path"
    and "run ev (adb_base adb device @ [''shell'', ''wm'', ''size'']) = Inr r1"
    and "ok r1 \<longrightarrow>
         re_search (two_numbers (lit ''Physical size: '') (lit ''x'') False []) (stdout r1) = None"
    and "run ev (adb_base adb device @ [''shell'', ''dumpsys'', ''window'', ''displays'']) = Inr r2"
    and "parse_display_info (stdout r2) = Inr (1080, 2400)"
    and "run ev (adb_base adb device @ [''shell'', ''dumpsys'', ''window'']) = Inr r3"
    and "re_search (two_numbers (lit ''mUnrestrictedScreen=('') (lit '','') False (lit '')''))
           (stdout r3) = None"
    and "run ev (adb_base adb device @ [''shell'', ''wm'', ''density'']) = Inr r4"
    and "ok r4 \<longrightarrow> re_search (one_number (lit ''Physical density: '')) (stdout r4) = None"
  shows "get_accurate_screen_info ev adb device path =
     Inr \<lparr>width = 1080, height = 2400, density = 420,
          aspect_ratio = 8106479329266893 / 2 ^ 54, source = Adb\<rparr>"
  using assms(1) size_all_fail[OF assms(2-7)] density_fail[OF assms(8,9)] default_ratio_value
  by (rule device_query_tagged_adb)

lemmas eval_text = lit_def two_numbers_def one_number_def number_def is_digit_def is_space_def
  digit_value_def decimal_zeros_def int_of_str_def int_pair_def int_max_str_digits_def

lemma offline_eval:
  "get_accurate_screen_info (device_double False [] [] [] []) ''adb'' ''dev'' None =
     Inr \<lparr>width = 1080, height = 2400, density = 420,
          aspect_ratio = 8106479329266893 / 2 ^ 54, source = Adb\<rparr>"
  by (simp add: get_accurate_screen_info_def screenshot_usable_def screen_info_via_adb_def
      get_screen_size_via_adb_def get_screen_density_via_adb_def parse_display_info_def
      device_double_def adb_base_def bind_err_def default_ratio_value eval_text)

lemma missing_adb_eval:
  "get_accurate_screen_info missing_adb ''adb'' ''dev'' None =
     Inr \<lparr>width = 1080, height = 2400, density = 420,
          aspect_ratio = 8106479329266893 / 2 ^ 54, source = Default\<rparr>"
  by (simp add: get_accurate_screen_info_def screenshot_usable_def screen_info_via_adb_def
      get_screen_size_via_adb_def missing_adb_def adb_base_def bind_err_def default_ratio_value)

text \<open>
  Claim C2 (total failure of every strategy returns 1080 x 2400 x 420 under the source tag
  \<open>Default\<close>). For a device that is offline every query returns a failed \<open>CmdResult\<close>
  with no output: no strategy yields a signal, and the resolver returns the default numbers
  under the tag \<open>Adb\<close>, as if the device had reported them. When the queries raise instead
  (the executable is missing), the same numbers come back under the tag \<open>Default\<close>.
\<close>

theorem C2_total_failure_tagged_adb:
  "get_accurate_screen_info (device_double False [] [] [] []) ''adb'' ''dev'' None =
     Inr \<lparr>width = 1080, height = 2400, density = 420,
          aspect_ratio = 8106479329266893 / 2 ^ 54, source = Adb\<rparr>
   \<and> get_accurate_screen_info missing_adb ''adb'' ''dev'' None =
     Inr \<lparr>width = 1080, height = 2400, density = 420,
          aspect_ratio = 8106479329266893 / 2 ^ 54, source = Default\<rparr>
   \<and> Adb \<noteq> Default"
  using offline_eval missing_adb_eval by simp

lemma zero_width_eval:
  "get_accurate_screen_info (device_double True (lit ''Physical size: 0x5'') [] [] [])
     ''adb'' ''dev'' None =
     Inr \<lparr>width = 0, height = 5, density = 420, aspect_ratio = 0, source = Adb\<rparr>"
  by (simp add: get_accurate_screen_info_def screenshot_usable_def screen_info_via_adb_def
      get_screen_size_via_adb_def get_screen_density_via_adb_def parse_display_info_def
      device_double_def adb_base_def bind_err_def int_truediv_def round64_def eval_text)

text \<open>
  Claim C3 as stated (width, height and density positive) fails when the device reports
  \<^verbatim>\<open>Physical size: 0x5\<close>: the width returned is 0.
\<close>

theorem C3_counterexample:
  "get_accurate_screen_info (device_double True (lit ''Physical size: 0x5'') [] [] [])
     ''adb'' ''dev'' None =
     Inr \<lparr>width = 0, height = 5, density = 420, aspect_ratio = 0, source = Adb\<rparr>
   \<and> \<not> 0 < width \<lparr>width = 0, height = 5, density = 420, aspect_ratio = 0, source = Adb\<rparr>"
  using zero_width_eval by simp

theorem C3_resolver_total_witness:
  "\<exists>info. get_accurate_screen_info (device_double True (lit ''Physical size: 0x5'') [] [] [])
        ''adb'' ''dev'' None = Inr info
     \<and> source info \<noteq> Screenshot \<and> 0 \<le> width info \<and> 0 < height info \<and> 0 \<le> density info"
proof -
  from C3_resolver_total[of "device_double True (lit ''Physical size: 0x5'') [] [] []"
      "''adb''" "''dev''" None]
  obtain info where i:
    "get_accurate_screen_info (device_double True (lit ''Physical size: 0x5'') [] [] [])
        ''adb'' ''dev'' None = Inr info"
    "0 \<le> density info"
    "source info \<noteq> Screenshot \<longrightarrow> 0 \<le> width info \<and> 0 < height info" by blast
  from i(1) zero_width_eval
  have "info = \<lparr>width = 0, height = 5, density = 420, aspect_ratio = 0, source = Adb\<rparr>"
    by simp
  then have "source info = Adb" by simp
  with i show ?thesis by auto
qed

subsection \<open>The extractor (claims C4 and C10)\<close>

lemma convert_relative_to_absolute_total:
  assumes "1 \<le> w" "w \<le> 2 ^ 1023" "1 \<le> h" "h \<le> 2 ^ 1023"
  shows "\<exists>ax ay. convert_relative_to_absolute rx ry w h = Inr (ax, ay)
     \<and> 0 \<le> ax \<and> ax \<le> w - 1 \<and> 0 \<le> ay \<and> ay \<le> h - 1"
proof -
  have cx: "0 \<le> max 0 (min 999 rx)" "max 0 (min 999 rx) \<le> 999" by simp_all
  have cy: "0 \<le> max 0 (min 999 ry)" "max 0 (min 999 ry) \<le> 999" by simp_all
  from rel_to_px_range[OF cx assms(1,2)] obtain ax where
    ax: "rel_to_px (max 0 (min 999 rx)) w = Inr ax" "0 \<le> ax" "ax \<le> w - 1" by blast
  from rel_to_px_range[OF cy assms(3,4)] obtain ay where
    ay: "rel_to_px (max 0 (min 999 ry)) h = Inr ay" "0 \<le> ay" "ay \<le> h - 1" by blast
  have "convert_relative_to_absolute rx ry w h = Inr (ax, ay)"
    by (simp add: convert_relative_to_absolute_def Let_def ax(1) ay(1) bind_err_def)
  then show ?thesis using ax ay by blast
qed

lemma convert_absolute_to_relative_total:
  assumes "1 \<le> w" "w \<le> 2 ^ 1023" "1 \<le> h" "h \<le> 2 ^ 1023"
  shows "\<exists>rx ry. convert_absolute_to_relative ax ay w h = Inr (rx, ry)"
proof -
  have cx: "0 \<le> max 0 (min (w - 1) ax)" "max 0 (min (w - 1) ax) \<le> w - 1" using assms(1) by simp_all
  have cy: "0 \<le> max 0 (min (h - 1) ay)" "max 0 (min (h - 1) ay) \<le> h - 1" using assms(3) by simp_all
  note px = px_to_rel_val(1)[OF cx assms(2)]
  note py = px_to_rel_val(1)[OF cy assms(4)]
  show ?thesis
    by (simp add: convert_absolute_to_relative_def Let_def px py bind_err_def)
qed

text \<open>A group of a match is no longer than the line, so a line within the limit converts.\<close>

lemma strip_prefix_length: "strip_prefix p s = Some r \<Longrightarrow> length r \<le> length s"
  by (induction p s rule: strip_prefix.induct) (auto split: if_splits)

lemma number_length: "number s = Some (ds, r) \<Longrightarrow> length ds \<le> length s \<and> length r \<le> length s"
  by (auto simp: number_def Let_def length_takeWhile_le length_dropWhile_le split: if_splits)

lemma two_numbers_length:
  assumes "two_numbers pre mid ws post s = Some (a, b)"
  shows "length a \<le> length s \<and> length b \<le> length s"
proof -
  from assms obtain s1 s2 s3 s4 where
    1: "strip_prefix pre s = Some s1" and 2: "number s1 = Some (a, s2)"
    and 3: "strip_prefix mid s2 = Some s3"
    and 4: "number (if ws then dropWhile is_space s3 else s3) = Some (b, s4)"
    by (auto simp: two_numbers_def bind_eq_Some_conv)
  have "length (if ws then dropWhile is_space s3 else s3) \<le> length s3"
    by (simp add: length_dropWhile_le)
  with strip_prefix_length[OF 1] number_length[OF 2] strip_prefix_length[OF 3] number_length[OF 4]
  show ?thesis by linarith
qed

lemma re_search_SomeD: "re_search m s = Some r \<Longrightarrow> \<exists>t. m t = Some r \<and> length t \<le> length s"
proof (induction s)
  case Nil
  then show ?case by auto
next
  case (Cons c cs)
  show ?case
  proof (cases "m (c # cs)")
    case None
    with Cons obtain t where "m t = Some r" "length t \<le> length cs" by auto
    then show ?thesis by (intro exI[of _ t]) simp
  next
    case (Some a)
    with Cons.prems show ?thesis by (intro exI[of _ "c # cs"]) simp
  qed
qed

lemma int_of_str_total: "length ds \<le> int_max_str_digits \<Longrightarrow> \<exists>n. int_of_str ds = Inr n"
  by (simp add: int_of_str_def)

lemma match_converts:
  assumes "re_search (two_numbers pre mid ws post) line = Some g"
    and "length line \<le> int_max_str_digits"
  shows "\<exists>a b. int_pair g = Inr (a, b)"
proof -
  obtain ga gb where g: "g = (ga, gb)" by (cases g)
  from re_search_SomeD[OF assms(1)] obtain t where
    t: "two_numbers pre mid ws post t = Some (ga, gb)" "length t \<le> length line"
    unfolding g by blast
  from two_numbers_length[OF t(1)] t(2) assms(2)
  have "length ga \<le> int_max_str_digits" "length gb \<le> int_max_str_digits" by simp_all
  from int_of_str_total[OF this(1)] int_of_str_total[OF this(2)] show ?thesis
    by (auto simp: int_pair_def g bind_err_def)
qed

lemma parse_line_total:
  assumes "1 \<le> width si" "width si \<le> 2 ^ 1023" "1 \<le> height si" "height si \<le> 2 ^ 1023"
    and "length line \<le> int_max_str_digits"
  shows "\<exists>st'. parse_line si st line = Inr st'"
proof -
  obtain els cur where st: "st = (els, cur)" by (cases st)
  have r: "\<And>rx ry. \<exists>p. convert_relative_to_absolute rx ry (width si) (height si) = Inr p"
    using convert_relative_to_absolute_total[OF assms(1-4)] by blast
  have a: "\<And>ax ay. \<exists>p. convert_absolute_to_relative ax ay (width si) (height si) = Inr p"
    using convert_absolute_to_relative_total[OF assms(1-4)] by blast
  show ?thesis
  proof (cases "is_title_line line")
    case True
    then show ?thesis by (simp add: parse_line_def st)
  next
    case nt: False
    show ?thesis
    proof (cases "contains marker_rel line \<and> cur \<noteq> None")
      case True
      show ?thesis
      proof (cases "re_search rel_coord_pattern line")
        case None
        then show ?thesis using nt True by (simp add: parse_line_def st)
      next
        case (Some g)
        from match_converts[OF Some[unfolded rel_coord_pattern_def] assms(5)]
        obtain rx ry where p: "int_pair g = Inr (rx, ry)" by blast
        from r[of rx ry] obtain q where q: "convert_relative_to_absolute rx ry (width si) (height si) = Inr q" by blast
        obtain ax ay where "q = (ax, ay)" by (cases q)
        then show ?thesis using nt True Some p q by (simp add: parse_line_def st bind_err_def)
      qed
    next
      case nr: False
      show ?thesis
      proof (cases "contains marker_abs line \<and> cur \<noteq> None \<and> coordinates (the cur) = None")
        case True
        show ?thesis
        proof (cases "re_search abs_coord_pattern line")
          case None
          then show ?thesis using nt nr True by (simp add: parse_line_def st)
        next
          case (Some g)
          from match_converts[OF Some[unfolded abs_coord_pattern_def] assms(5)]
          obtain ax ay where p: "int_pair g = Inr (ax, ay)" by blast
          from a[of ax ay] obtain q where q: "convert_absolute_to_relative ax ay (width si) (height si) = Inr q" by blast
          obtain rx ry where "q = (rx, ry)" by (cases q)
          then show ?thesis using nt nr True Some p q by (simp add: parse_line_def st bind_err_def)
        qed
      next
        case False
        then show ?thesis using nt nr
          by (auto simp add: parse_line_def st split: option.splits)
      qed
    qed
  qed
qed

lemma parse_lines_total:
  assumes "1 \<le> width si" "width si \<le> 2 ^ 1023" "1 \<le> height si" "height si \<le> 2 ^ 1023"
    and "\<forall>l\<in>set ls. length l \<le> int_max_str_digits"
  shows "\<exists>st'. parse_lines si ls st = Inr st'"
  using assms(5)
proof (induction ls arbitrary: st)
  case Nil
  then show ?case by simp
next
  case (Cons l ls)
  from Cons.prems have "length l \<le> int_max_str_digits" by simp
  from parse_line_total[OF assms(1-4) this, of st] obtain s1 where "parse_line si st l = Inr s1"
    by blast
  then show ?case using Cons.IH[of s1] Cons.prems by (simp add: bind_err_def)
qed

lemma parse_line_paired:
  assumes "parse_line si (els, cur) line = Inr (els', cur')"
    and "\<forall>e\<in>set els. (relative_coordinates e = None) = (coordinates e = None)"
    and "\<forall>e. cur = Some e \<longrightarrow> (relative_coordinates e = None) = (coordinates e = None)"
  shows "(\<forall>e\<in>set els'. (relative_coordinates e = None) = (coordinates e = None))
     \<and> (\<forall>e. cur' = Some e \<longrightarrow> (relative_coordinates e = None) = (coordinates e = None))"
  using assms
  by (auto simp: parse_line_def bind_err_def new_element_def
      split: if_splits option.splits sum.splits prod.splits)

lemma parse_lines_paired:
  assumes "parse_lines si ls (els, cur) = Inr (els', cur')"
    and "\<forall>e\<in>set els. (relative_coordinates e = None) = (coordinates e = None)"
    and "\<forall>e. cur = Some e \<longrightarrow> (relative_coordinates e = None) = (coordinates e = None)"
  shows "(\<forall>e\<in>set els'. (relative_coordinates e = None) = (coordinates e = None))
     \<and> (\<forall>e. cur' = Some e \<longrightarrow> (relative_coordinates e = None) = (coordinates e = None))"
  using assms
proof (induction ls arbitrary: els cur)
  case Nil
  then show ?case by simp
next
  case (Cons l ls)
  from Cons.prems(1) obtain e1 c1 where
    s1: "parse_line si (els, cur) l = Inr (e1, c1)" and
    s2: "parse_lines si ls (e1, c1) = Inr (els', cur')"
    by (auto simp: bind_err_def split: sum.splits)
  from parse_line_paired[OF s1 Cons.prems(2,3)] Cons.IH[OF s2] show ?case by blast
qed

text \<open>
  Claim C10: for every narrative and every screen info, each element the extractor returns has
  either both the relative and the absolute coordinate or neither. The extractor does return
  whenever the screen is at least 1 x 1 and within the float range (the conversions cannot
  raise then) and no line is longer than the limit on the digits of a numeral (\<^verbatim>\<open>int\<close>
  cannot raise then).
\<close>

theorem C10_coordinates_paired:
  "(parse_relative_coordinates_from_text text si = Inr els
      \<longrightarrow> (\<forall>e\<in>set els. (relative_coordinates e = None) = (coordinates e = None)))
   \<and> (1 \<le> width si \<and> width si \<le> 2 ^ 1023 \<and> 1 \<le> height si \<and> height si \<le> 2 ^ 1023
      \<and> (\<forall>l\<in>set (split_lines text). length l \<le> int_max_str_digits)
      \<longrightarrow> (\<exists>els'. parse_relative_coordinates_from_text text si = Inr els'))"
proof (intro conjI impI)
  assume "parse_relative_coordinates_from_text text si = Inr els"
  then obtain e1 c1 where
    p: "parse_lines si (split_lines text) ([], None) = Inr (e1, c1)"
    and els: "els = (case c1 of Some e \<Rightarrow> e1 @ [e] | None \<Rightarrow> e1)"
    by (auto simp: parse_relative_coordinates_from_text_def bind_err_def split: sum.splits)
  from parse_lines_paired[OF p] have
    "\<forall>e\<in>set e1. (relative_coordinates e = None) = (coordinates e = None)"
    "\<forall>e. c1 = Some e \<longrightarrow> (relative_coordinates e = None) = (coordinates e = None)"
    by simp_all
  then show "\<forall>e\<in>set els. (relative_coordinates e = None) = (coordinates e = None)"
    unfolding els by (auto split: option.splits)
next
  assume "1 \<le> width si \<and> width si \<le> 2 ^ 1023 \<and> 1 \<le> height si \<and> height si \<le> 2 ^ 1023
      \<and> (\<forall>l\<in>set (split_lines text). length l \<le> int_max_str_digits)"
  then have a: "1 \<le> width si" "width si \<le> 2 ^ 1023" "1 \<le> height si" "height si \<le> 2 ^ 1023"
    "\<forall>l\<in>set (split_lines text). length l \<le> int_max_str_digits"
    by simp_all
  from parse_lines_total[OF a, of "([], None)"]
  obtain st where "parse_lines si (split_lines text) ([], None) = Inr st" by blast
  then show "\<exists>els'. parse_relative_coordinates_from_text text si = Inr els'"
    by (cases st) (simp add: parse_relative_coordinates_from_text_def bind_err_def)
qed

subsection \<open>The coordinates of an element block (claim C4)\<close>




















lemmas sample_defs = sample_title_def sample_legacy_line_def sample_relative_line_def
  sample_second_legacy_line_def sample_wide_line_def marker_rel_def marker_abs_def
  marker_cmd_def

lemma sample_lines:
  "split_lines sample_narrative =
     [sample_title, sample_legacy_line, sample_relative_line, sample_second_legacy_line]"
  "split_lines sample_legacy_narrative =
     [sample_title, sample_legacy_line, sample_second_legacy_line]"
  "split_lines sample_wide_narrative = [sample_title, sample_legacy_line, sample_wide_line]"
  by (simp_all add: sample_narrative_def sample_legacy_narrative_def sample_wide_narrative_def
      sample_defs lit_def)

lemma sample_titles:
  "is_title_line sample_title" "\<not> is_title_line sample_legacy_line"
  "\<not> is_title_line sample_relative_line" "\<not> is_title_line sample_second_legacy_line"
  "\<not> is_title_line sample_wide_line"
  by (simp_all add: is_title_line_def contains_def strip_def sample_defs eval_text)

lemma sample_readings:
  "relative_line sample_relative_line = Some (lit ''250'', lit ''500'')"
  "relative_line sample_wide_line = Some (lit ''250'', [0xFF15, 0xFF10, 0xFF10])"
  "relative_line sample_legacy_line = None" "relative_line sample_second_legacy_line = None"
  "legacy_line sample_legacy_line = Some (lit ''540'', lit ''300'')"
  "legacy_line sample_second_legacy_line = Some (lit ''100'', lit ''100'')"
  by (simp_all add: relative_line_def legacy_line_def contains_def rel_coord_pattern_def
      abs_coord_pattern_def sample_defs eval_text)

lemma sample_numbers:
  "int_pair (lit ''250'', lit ''500'') = Inr (250, 500)"
  "int_pair (lit ''250'', [0xFF15, 0xFF10, 0xFF10]) = Inr (250, 500)"
  "int_pair (lit ''540'', lit ''300'') = Inr (540, 300)"
  "int_pair (lit ''100'', lit ''100'') = Inr (100, 100)"
  by (simp_all add: bind_err_def eval_text)

lemma sample_lengths:
  "length sample_title \<le> int_max_str_digits" "length sample_legacy_line \<le> int_max_str_digits"
  "length sample_relative_line \<le> int_max_str_digits"
  "length sample_second_legacy_line \<le> int_max_str_digits"
  by (simp_all add: sample_defs lit_def int_max_str_digits_def)

lemma sample_new_element: "new_element sample_title = sample_element"
  by (simp add: new_element_def sample_element_def element_pattern_def priority_pattern_def
      prio_high_def prio_medium_def prio_low_def strip_def sample_defs eval_text)

lemma fl_quarter: "fl (1 / 4) = 1 / 4"
  using fl_eqI[of "- 2" "1 / 4" "2 ^ 52"] by simp

lemma sample_px:
  "rel_to_px 250 1080 = Inr 270" "rel_to_px 500 2400 = Inr 1200"
  "px_to_rel 540 1080 = Inr 500" "px_to_rel 300 2400 = Inr 125"
proof -
  have n: "fl 1080 = 1080" "fl 2400 = 2400" "fl 270 = 270" "fl 1200 = 1200" "fl 500 = 500"
    "fl 125 = 125"
    using fl_of_int[of 1080] fl_of_int[of 2400] fl_of_int[of 270] fl_of_int[of 1200]
      fl_of_int[of 500] fl_of_int[of 125] by simp_all
  show "rel_to_px 250 1080 = Inr 270"
    by (simp add: rel_to_px_def bind_err_def int_truediv_def float_of_int_def float_mul_def
        round64_def int_of_float_def fl_quarter n)
  show "rel_to_px 500 2400 = Inr 1200"
    by (simp add: rel_to_px_def bind_err_def int_truediv_def float_of_int_def float_mul_def
        round64_def int_of_float_def fl_half n)
  show "px_to_rel 540 1080 = Inr 500"
    by (simp add: px_to_rel_def bind_err_def int_truediv_def round64_def int_of_float_def n)
  show "px_to_rel 300 2400 = Inr 125"
    by (simp add: px_to_rel_def bind_err_def int_truediv_def round64_def int_of_float_def n)
qed

lemma sample_conversions:
  "convert_relative_to_absolute 250 500 (width sample_screen) (height sample_screen) = Inr (270, 1200)"
  "convert_absolute_to_relative 540 300 (width sample_screen) (height sample_screen) = Inr (500, 125)"
  by (simp_all add: convert_relative_to_absolute_def convert_absolute_to_relative_def
      sample_screen_def sample_px bind_err_def)

lemma sample_guards:
  "contains marker_rel sample_relative_line" "contains marker_rel sample_wide_line"
  "\<not> contains marker_rel sample_legacy_line" "\<not> contains marker_rel sample_second_legacy_line"
  "contains marker_abs sample_legacy_line" "contains marker_abs sample_second_legacy_line"
  "\<not> contains marker_cmd sample_legacy_line" "\<not> contains marker_cmd sample_second_legacy_line"
  by (simp_all add: contains_def sample_defs lit_def)

lemma sample_matches:
  "re_search rel_coord_pattern sample_relative_line = Some (lit ''250'', lit ''500'')"
  "re_search rel_coord_pattern sample_wide_line = Some (lit ''250'', [0xFF15, 0xFF10, 0xFF10])"
  "re_search abs_coord_pattern sample_legacy_line = Some (lit ''540'', lit ''300'')"
  using sample_readings sample_guards by (simp_all add: relative_line_def legacy_line_def)

text \<open>
  The three samples run: the relative line wins over the legacy lines around it; without it
  the first legacy line is honoured; and the relative line is read the same when it is written
  with an ideographic space and full-width digits.
\<close>

lemma sample_parse:
  "parse_relative_coordinates_from_text sample_narrative sample_screen =
     Inr [sample_element\<lparr>relative_coordinates := Some (250, 500), coordinates := Some (270, 1200)\<rparr>]"
  "parse_relative_coordinates_from_text sample_legacy_narrative sample_screen =
     Inr [sample_element\<lparr>relative_coordinates := Some (500, 125), coordinates := Some (540, 300)\<rparr>]"
  "parse_relative_coordinates_from_text sample_wide_narrative sample_screen =
     Inr [sample_element\<lparr>relative_coordinates := Some (250, 500), coordinates := Some (270, 1200)\<rparr>]"
  by (simp_all add: parse_relative_coordinates_from_text_def sample_lines parse_line_def
      sample_titles sample_guards sample_matches sample_numbers sample_conversions
      sample_new_element bind_err_def sample_element_def)

theorem C10_coordinates_paired_witness:
  "parse_relative_coordinates_from_text sample_narrative sample_screen =
     Inr [sample_element\<lparr>relative_coordinates := Some (250, 500), coordinates := Some (270, 1200)\<rparr>]
   \<and> ((relative_coordinates (sample_element\<lparr>relative_coordinates := Some (250, 500),
           coordinates := Some (270, 1200)\<rparr>) = None)
      = (coordinates (sample_element\<lparr>relative_coordinates := Some (250, 500),
           coordinates := Some (270, 1200)\<rparr>) = None))
   \<and> 1 \<le> width sample_screen \<and> width sample_screen \<le> 2 ^ 1023
   \<and> 1 \<le> height sample_screen \<and> height sample_screen \<le> 2 ^ 1023
   \<and> length sample_title \<le> int_max_str_digits
   \<and> length sample_legacy_line \<le> int_max_str_digits
   \<and> length sample_relative_line \<le> int_max_str_digits
   \<and> length sample_second_legacy_line \<le> int_max_str_digits"
proof -
  note c = C10_coordinates_paired[of sample_narrative sample_screen
      "[sample_element\<lparr>relative_coordinates := Some (250, 500), coordinates := Some (270, 1200)\<rparr>]"]
  have s: "1 \<le> width sample_screen \<and> width sample_screen \<le> 2 ^ 1023
     \<and> 1 \<le> height sample_screen \<and> height sample_screen \<le> 2 ^ 1023"
    by (simp add: sample_screen_def)
  from c[THEN conjunct1, rule_format, OF sample_parse(1)]
  have "(relative_coordinates (sample_element\<lparr>relative_coordinates := Some (250, 500),
           coordinates := Some (270, 1200)\<rparr>) = None)
      = (coordinates (sample_element\<lparr>relative_coordinates := Some (250, 500),
           coordinates := Some (270, 1200)\<rparr>) = None)"
    by (simp del: element.simps)
  with sample_parse(1) s sample_lengths show ?thesis by blast
qed


subsection \<open>The orchestrator (claims C5, C6 and C7)\<close>

lemma rne_minus: "rne (- x) = - rne x"
proof (cases "x = of_int \<lfloor>x\<rfloor>")
  case True
  then obtain n where "x = of_int n" ..
  then show ?thesis
    by (metis of_int_minus rne_of_int)
next
  case False
  then have fl: "\<lfloor>- x\<rfloor> = - \<lfloor>x\<rfloor> - 1"
    by (metis ceiling_altdef ceiling_def add_diff_cancel_right' minus_diff_eq diff_minus_eq_add
        uminus_add_conv_diff)
  have d: "- x - of_int (- \<lfloor>x\<rfloor> - 1) = 1 - (x - of_int \<lfloor>x\<rfloor>)" by simp
  show ?thesis
    unfolding rne_def Let_def fl d by (auto simp: rne_def Let_def)
qed

lemma fl_minus: "fl (- x) = - fl x"
  by (simp add: fl_def Let_def rne_minus)

lemma fl_abs_le:
  assumes "\<bar>x\<bar> \<le> of_int n" "\<bar>x\<bar> < 2 ^ 53"
  shows "\<bar>fl x\<bar> \<le> of_int n"
proof (cases "0 \<le> x")
  case True
  with assms have x: "x \<le> of_int n" "x < 2 ^ 53" by simp_all
  from fl_le_int[OF x(1) True x(2)] fl_ge_int[of 0 x] True x(2) show ?thesis by simp
next
  case False
  with assms have x: "- x \<le> of_int n" "0 \<le> - x" "- x < 2 ^ 53" by simp_all
  from fl_le_int[OF x] fl_ge_int[of 0 "- x"] x(2,3) show ?thesis
    by (simp add: fl_minus)
qed

lemma round64_small:
  assumes "\<bar>x\<bar> < 2 ^ 53"
  shows "round64 x = Finite (fl x)"
proof -
  have "\<bar>x\<bar> \<le> of_int (2 ^ 53)" using assms by simp
  from fl_abs_le[OF this assms] have "- (2 ^ 53) \<le> fl x" "fl x \<le> 2 ^ 53"
    by (simp_all add: abs_le_iff)
  moreover have "(2::rat) ^ 53 < 2 ^ 1024" by simp
  ultimately show ?thesis by (simp add: round64_def Let_def)
qed

lemma fl_of_int_abs:
  assumes "\<bar>n\<bar> < 2 ^ 53"
  shows "fl (of_int n) = of_int n"
proof (cases "0 \<le> n")
  case True
  with assms show ?thesis by (intro fl_of_int) simp_all
next
  case False
  with assms have "0 \<le> - n" "- n < 2 ^ 53" by simp_all
  from fl_of_int[OF this] show ?thesis by (simp add: fl_minus)
qed

lemma remaining_budget_value:
  assumes "\<bar>timeout\<bar> < 2 ^ 52" "\<bar>now - start\<bar> < 2 ^ 52"
  shows "remaining_budget timeout start now =
     Inr (max 10 \<lfloor>fl (of_int timeout - fl (now - start))\<rfloor>)"
proof -
  define el where "el = fl (now - start)"
  define rest where "rest = fl (of_int timeout - el)"
  have d: "\<bar>now - start\<bar> < 2 ^ 53" using assms(2) by simp
  have e1: "round64 (now - start) = Finite el" unfolding el_def using d by (rule round64_small)
  have "\<bar>now - start\<bar> \<le> of_int (2 ^ 52)" using assms(2) by simp
  from fl_abs_le[OF this d] have el1: "\<bar>el\<bar> \<le> 2 ^ 52" unfolding el_def by simp
  have "\<bar>timeout\<bar> \<le> 2 ^ 52 - 1" using assms(1) by simp
  then have "(of_int \<bar>timeout\<bar> :: rat) \<le> of_int (2 ^ 52 - 1)" by (subst of_int_le_iff)
  then have tq: "\<bar>of_int timeout :: rat\<bar> \<le> 2 ^ 52 - 1" by simp
  have t: "float_of_int timeout = Inr (of_int timeout)"
  proof -
    have "\<bar>of_int timeout :: rat\<bar> < 2 ^ 53" using tq by simp
    moreover have "\<bar>timeout\<bar> < 2 ^ 53" using assms(1) by simp
    ultimately show ?thesis using round64_small fl_of_int_abs
      by (simp add: float_of_int_def)
  qed
  have "\<bar>of_int timeout - el\<bar> \<le> \<bar>of_int timeout :: rat\<bar> + \<bar>el\<bar>" by simp
  with tq el1 have "\<bar>of_int timeout - el\<bar> < 2 ^ 53" by simp
  then have r: "round64 (of_int timeout - el) = Finite rest"
    unfolding rest_def by (rule round64_small)
  have b: "remaining_budget timeout start now =
      (if 10 < rest then Inr (if 0 \<le> rest then \<lfloor>rest\<rfloor> else \<lceil>rest\<rceil>) else Inr 10)"
    by (simp add: remaining_budget_def e1 int_minus_float_def t float_sub_def r bind_err_def
        int_lt_float_def int_of_float_def)
  show ?thesis
  proof (cases "10 < rest")
    case True
    then have "10 \<le> \<lfloor>rest\<rfloor>" by (simp add: le_floor_iff)
    then show ?thesis using True b by (simp add: rest_def el_def)
  next
    case False
    then have "\<lfloor>rest\<rfloor> \<le> 10" by (simp add: floor_le_iff)
    then show ?thesis using False b by (simp add: rest_def el_def)
  qed
qed

lemma execute_observed:
  assumes "execute_with_auto_view a wd = Inr r"
  shows "observed r \<noteq> None \<longleftrightarrow>
     arg_auto_view a \<and> ok (action wd) \<and> arg_cmd a \<in> auto_view_commands"
  using assms
  by (auto simp: execute_with_auto_view_def Let_def bind_err_def
      split: if_splits sum.splits prod.splits)

lemma print_only_observed: "print_only a wd = Inr r \<Longrightarrow> observed r = None"
  by (auto simp: print_only_def split: prod.splits)

lemma early_exit_observed: "early_exit c m = Inr r \<Longrightarrow> observed r = None"
  by (auto simp: early_exit_def)

text \<open>
  Claim C6: an invocation observes the screen (calls \<^verbatim>\<open>_auto_view_screen\<close>) only when
  auto-view is enabled, the command is one of tap, swipe, key, text, app, and the device action
  succeeded; connect, devices, stop and shell never observe, nor does a failed action, nor an
  invocation with auto-view disabled. (An invocation that raises does so while the budget is
  computed, before the observation.)
\<close>

theorem C6_observation_guard:
  "(main a wd = Inr r \<and> observed r \<noteq> None
      \<longrightarrow> arg_auto_view a \<and> arg_cmd a \<in> {''tap'', ''swipe'', ''key'', ''text'', ''app''}
          \<and> ok (action wd))
   \<and> (main a wd = Inr r \<and> arg_cmd a \<in> {''connect'', ''devices'', ''stop'', ''shell''}
      \<longrightarrow> observed r = None)
   \<and> (main a wd = Inr r \<and> \<not> ok (action wd) \<longrightarrow> observed r = None)
   \<and> (main a wd = Inr r \<and> \<not> arg_auto_view a \<longrightarrow> observed r = None)"
proof -
  have 1: "arg_auto_view a \<and> ok (action wd) \<and> arg_cmd a \<in> auto_view_commands"
    if "main a wd = Inr r" "observed r \<noteq> None"
    using that
    by (auto simp: main_def split: if_splits
        dest: print_only_observed early_exit_observed execute_observed[THEN iffD1])
  have 2: "observed r = None"
    if "main a wd = Inr r" "arg_cmd a \<in> {''connect'', ''devices'', ''stop'', ''shell''}"
    using that
    by (auto simp: main_def split: if_splits
        dest: print_only_observed early_exit_observed)
  have 3: "observed r = None" if "main a wd = Inr r" "\<not> ok (action wd)"
    using 1[OF that(1)] that(2) by blast
  have 4: "observed r = None" if "main a wd = Inr r" "\<not> arg_auto_view a"
    using 1[OF that(1)] that(2) by blast
  have 5: "arg_auto_view a \<and> arg_cmd a \<in> {''tap'', ''swipe'', ''key'', ''text'', ''app''}
          \<and> ok (action wd)" if "main a wd = Inr r" "observed r \<noteq> None"
    using 1[OF that] by (simp add: auto_view_commands_def)
  from 2 3 4 5 show ?thesis by blast
qed

text \<open>
  Claim C5, amended. Take an invocation that observes: auto-view is enabled, the command is
  one of tap, swipe, key, text, app, the action succeeded, and the wait is accepted (between 0
  and 60, and \<^verbatim>\<open>--relative\<close> only with the conversions at hand). Let the configured timeout
  be below 2^52 in absolute value and the two clock readings (the second is taken after the
  wait) less than 2^52 seconds apart. Then the timeout passed to \<^verbatim>\<open>_auto_view_screen\<close> is an
  integer: the whole seconds of \<^verbatim>\<open>timeout - elapsed\<close>, and 10 if that is less, where
  \<^verbatim>\<open>elapsed\<close> is the difference of the two readings and both subtractions are rounded to
  binary64. The wait does not occur in it: it is part of \<^verbatim>\<open>elapsed\<close> and is not subtracted
  again.
\<close>

theorem C5_timeout_budget:
  assumes "arg_auto_view a" "arg_cmd a \<in> auto_view_commands" "ok (action wd)"
    and "0 \<le> arg_wait a" "arg_wait a \<le> 60"
    and "\<not> (arg_relative a \<and> \<not> conversion_available wd)"
    and "\<bar>arg_timeout a\<bar> < 2 ^ 52"
    and "\<bar>clock_observe wd - clock_start wd\<bar> < 2 ^ 52"
  shows "\<exists>r. main a wd = Inr r
     \<and> observed r = Some (max 10 \<lfloor>fl (of_int (arg_timeout a)
                               - fl (clock_observe wd - clock_start wd))\<rfloor>, arg_json a)"
proof -
  note b = remaining_budget_value[OF assms(7,8)]
  have e: "\<exists>r. execute_with_auto_view a wd = Inr r
     \<and> observed r = Some (max 10 \<lfloor>fl (of_int (arg_timeout a)
                               - fl (clock_observe wd - clock_start wd))\<rfloor>, arg_json a)"
    using assms(1-3)
    by (simp add: execute_with_auto_view_def Let_def b bind_err_def split: prod.splits)
  have "main a wd = execute_with_auto_view a wd"
    using assms(2,4,5,6) by (auto simp: main_def auto_view_commands_def)
  with e show ?thesis by simp
qed

lemma show_int_values: "show_int 10 = lit ''10''" "show_int 26 = lit ''26''"
  by (simp_all add: show_int_def lit_def show_nat.simps[of 10] show_nat.simps[of 26]
      show_nat.simps[of "Suc 0"] show_nat.simps[of 2])

lemma fl_sample: "fl (7 / 2) = 7 / 2" "fl (53 / 2) = 53 / 2"
  using fl_eqI[of 1 "7 / 2" "7 * 2 ^ 50"] fl_eqI[of 4 "53 / 2" "53 * 2 ^ 47"] by simp_all

lemma sample_budget:
  "remaining_budget 30 1700000000 1700000003 = Inr 27"
  "remaining_budget 30 1700000000 1700000020 = Inr 10"
  "remaining_budget 30 1700000000 (1700000003 + 1 / 2) = Inr 26"
proof -
  have n: "fl 3 = 3" "fl 27 = 27" "fl 20 = 20" "fl 10 = 10"
    using fl_of_int[of 3] fl_of_int[of 27] fl_of_int[of 20] fl_of_int[of 10] by simp_all
  show "remaining_budget 30 1700000000 1700000003 = Inr 27"
    using remaining_budget_value[where timeout = 30 and start = 1700000000 and now = 1700000003]
    by (simp add: n)
  show "remaining_budget 30 1700000000 1700000020 = Inr 10"
    using remaining_budget_value[where timeout = 30 and start = 1700000000 and now = 1700000020]
    by (simp add: n)
  have "\<lfloor>53 / 2 :: rat\<rfloor> = 26" by (simp add: floor_eq_iff)
  then show "remaining_budget 30 1700000000 (1700000003 + 1 / 2) = Inr 26"
    using remaining_budget_value[where timeout = 30 and start = 1700000000
        and now = "1700000003 + 1 / 2"]
    by (simp add: fl_sample)
qed

lemma sample_budget_half: "remaining_budget 30 1700000000 (3400000007 / 2) = Inr 26"
  using sample_budget(3) by simp

lemma sample_run:
  "\<exists>r. main sample_args sample_world = Inr r \<and> observed r = Some (27, True)"
  by (simp add: main_def execute_with_auto_view_def auto_view_commands_def sample_args_def
      sample_world_def sample_budget bind_err_def Let_def split: prod.splits)

text \<open>
  Claim C5 as stated (the budget is \<^verbatim>\<open>max(10, timeout - elapsed)\<close>) fails when the
  elapsed time is not a whole number of seconds: with \<^verbatim>\<open>--timeout 30\<close> and readings 3.5
  seconds apart the formula gives 26.5, and the observation is given 26.
\<close>

theorem C5_counterexample:
  "main sample_args (sample_world\<lparr>clock_observe := 1700000003 + 1 / 2\<rparr>) =
     Inr \<lparr>exit_code = 0,
          printed = [PrintJson (action sample_world)
            (Some (ViewDict [(''ok'', JBool False), (''timeout_error'', JBool True),
               (''error'', JStr (lit ''Auto-view timeout after 26 seconds'')),
               (''suggested_timeout'', JInt 52)]))],
          logged = [], slept = Some (3 / 2), observed = Some (26, True)\<rparr>
   \<and> max 10 (30 - ((1700000003 + 1 / 2) - 1700000000)) = (53 / 2 :: rat)
   \<and> of_int 26 \<noteq> (53 / 2 :: rat)"
  by (simp add: main_def execute_with_auto_view_def auto_view_commands_def sample_args_def
      sample_world_def sample_budget_half bind_err_def Let_def auto_view_screen_def
      print_result_def show_int_values lit_def)

theorem C5_timeout_budget_witness:
  "arg_auto_view sample_args \<and> arg_cmd sample_args \<in> auto_view_commands
   \<and> ok (action sample_world) \<and> 0 \<le> arg_wait sample_args \<and> arg_wait sample_args \<le> 60
   \<and> \<not> (arg_relative sample_args \<and> \<not> conversion_available sample_world)
   \<and> \<bar>arg_timeout sample_args\<bar> < 2 ^ 52
   \<and> \<bar>clock_observe sample_world - clock_start sample_world\<bar> < 2 ^ 52
   \<and> (\<exists>r. main sample_args sample_world = Inr r \<and> observed r = Some (27, True))
   \<and> max 10 \<lfloor>(30::rat) - 3 - 3 / 2\<rfloor> = 25"
proof -
  have n: "fl 3 = 3" "fl 27 = 27" using fl_of_int[of 3] fl_of_int[of 27] by simp_all
  have h: "arg_auto_view sample_args" "arg_cmd sample_args \<in> auto_view_commands"
    "ok (action sample_world)" "0 \<le> arg_wait sample_args" "arg_wait sample_args \<le> 60"
    "\<not> (arg_relative sample_args \<and> \<not> conversion_available sample_world)"
    "\<bar>arg_timeout sample_args\<bar> < 2 ^ 52"
    "\<bar>clock_observe sample_world - clock_start sample_world\<bar> < 2 ^ 52"
    by (simp_all add: sample_args_def sample_world_def auto_view_commands_def)
  from C5_timeout_budget[OF h]
  have "\<exists>r. main sample_args sample_world = Inr r \<and> observed r = Some (27, True)"
    by (simp add: sample_args_def sample_world_def n)
  moreover have "max 10 \<lfloor>(30::rat) - 3 - 3 / 2\<rfloor> = 25" by (simp add: floor_eq_iff)
  ultimately show ?thesis using h by blast
qed

theorem C6_observation_guard_witness:
  "(\<exists>r. main sample_args sample_world = Inr r \<and> observed r \<noteq> None)
   \<and> arg_auto_view sample_args
   \<and> arg_cmd sample_args \<in> {''tap'', ''swipe'', ''key'', ''text'', ''app''}
   \<and> ok (action sample_world)"
proof -
  from sample_run obtain r where r: "main sample_args sample_world = Inr r"
    "observed r = Some (27, True)" by blast
  then have o: "observed r \<noteq> None" by simp
  from C6_observation_guard[of sample_args sample_world r, THEN conjunct1, rule_format] r(1) o
  have "arg_auto_view sample_args
     \<and> arg_cmd sample_args \<in> {''tap'', ''swipe'', ''key'', ''text'', ''app''}
     \<and> ok (action sample_world)" by blast
  with r(1) o show ?thesis by blast
qed

text \<open>The part of claim C7 that holds: a successful action has exit status 0, whatever the
  observation returns.\<close>

lemma print_result_ok:
  "ok result \<Longrightarrow> print_result result as_json v = (outs, exited) \<Longrightarrow> exited = None"
  by (auto simp: print_result_def split: if_splits)

lemma successful_action_status:
  assumes "execute_with_auto_view a wd = Inr r" "ok (action wd)"
  shows "exit_code r = 0"
  using assms
  by (auto simp: execute_with_auto_view_def Let_def bind_err_def
      split: if_splits sum.splits prod.splits dest: print_result_ok)

text \<open>
  Claim C7 (the suggested retry timeout is twice the configured timeout). With
  \<^verbatim>\<open>--timeout 30 --wait 20\<close>, readings 20 seconds apart and an observation that times out,
  the invocation exits with status 0, as claimed, but the suggestion is 20: twice the budget
  of 10 seconds that was passed to the observation, and less than the configured 30.
\<close>

theorem C7_suggested_timeout:
  "main (sample_args\<lparr>arg_wait := 20\<rparr>) (sample_world\<lparr>clock_observe := 1700000020\<rparr>) =
     Inr \<lparr>exit_code = 0,
          printed = [PrintJson (action sample_world)
            (Some (ViewDict [(''ok'', JBool False), (''timeout_error'', JBool True),
               (''error'', JStr (lit ''Auto-view timeout after 10 seconds'')),
               (''suggested_timeout'', JInt 20)]))],
          logged = [], slept = Some 20, observed = Some (10, True)\<rparr>
   \<and> (20::int) \<noteq> 2 * arg_timeout sample_args"
  by (simp add: main_def execute_with_auto_view_def auto_view_commands_def sample_args_def
      sample_world_def sample_budget bind_err_def Let_def auto_view_screen_def
      print_result_def show_int_values lit_def)

end
